theory Spec2Isabelle
  imports Complex_Main
begin

section \<open>Errors and tensors\<close>

text \<open>
  The module \<^verbatim>\<open>utils/kaleidoscope.py\<close> computes on torch tensors. A tensor is modelled as
  torch stores a contiguous one: its shape and its elements in row-major order. Every
  exception the code can raise is a value of \<open>error\<close>, named after the Python exception.
  Pixel values are real numbers: the rounding of the float32 arithmetic is not modelled.
\<close>

datatype error = ValueError | IndexError | RuntimeError | UnboundLocalError

record 'a tensor =
  shape :: "nat list"
  data :: "'a list"

definition numel :: "nat list \<Rightarrow> nat" where
  "numel sh = prod_list sh"

definition wf :: "'a tensor \<Rightarrow> bool" where
  "wf t \<longleftrightarrow> length (data t) = numel (shape t)"

definition ebind :: "error + 'a \<Rightarrow> ('a \<Rightarrow> error + 'b) \<Rightarrow> error + 'b" where
  "ebind m f = (case m of Inl e \<Rightarrow> Inl e | Inr x \<Rightarrow> f x)"

definition nrows :: "'a tensor \<Rightarrow> nat" where
  "nrows t = shape t ! 0"

definition ncols :: "'a tensor \<Rightarrow> nat" where
  "ncols t = shape t ! 1"

text \<open>Element \<open>t[y, x]\<close> of a 2-D tensor and \<open>t[y, p, x]\<close> of a 3-D tensor.\<close>

definition get2 :: "'a tensor \<Rightarrow> nat \<Rightarrow> nat \<Rightarrow> 'a" where
  "get2 t y x = data t ! (y * (shape t ! 1) + x)"

definition get3 :: "'a tensor \<Rightarrow> nat \<Rightarrow> nat \<Rightarrow> nat \<Rightarrow> 'a" where
  "get3 t y p x = data t ! ((y * (shape t ! 1) + p) * (shape t ! 2) + x)"

text \<open>A fresh 2-D (3-D) tensor given by its elements.\<close>

definition tab2 :: "nat \<Rightarrow> nat \<Rightarrow> (nat \<Rightarrow> nat \<Rightarrow> 'a) \<Rightarrow> 'a tensor" where
  "tab2 h w f = \<lparr>shape = [h, w], data = map (\<lambda>k. f (k div w) (k mod w)) [0..<h * w]\<rparr>"

definition tab3 :: "nat \<Rightarrow> nat \<Rightarrow> nat \<Rightarrow> (nat \<Rightarrow> nat \<Rightarrow> nat \<Rightarrow> 'a) \<Rightarrow> 'a tensor" where
  "tab3 h n w f =
     \<lparr>shape = [h, n, w],
      data = map (\<lambda>k. f (k div (n * w)) (k div w mod n) (k mod w)) [0..<h * n * w]\<rparr>"

subsection \<open>Python built-ins\<close>

text \<open>
  \<^verbatim>\<open>range(start, stop, step)\<close>, with the length CPython computes. The step is a
  non-zero literal at every call site.
\<close>

definition py_range :: "int \<Rightarrow> int \<Rightarrow> int \<Rightarrow> int list" where
  "py_range start stop step =
     (if 0 < step
      then map (\<lambda>k. start + int k * step) [0..<nat ((stop - start + step - 1) div step)]
      else map (\<lambda>k. start + int k * step) [0..<nat ((start - stop - step - 1) div (- step))])"

text \<open>An index into a dimension of size \<open>n\<close>: negative indices count from the end.\<close>

definition wrap_index :: "nat \<Rightarrow> int \<Rightarrow> error + nat" where
  "wrap_index n i =
     (if 0 \<le> i \<and> i < int n then Inr (nat i)
      else if - int n \<le> i \<and> i < 0 then Inr (nat (i + int n))
      else Inl IndexError)"

fun wrap_indices :: "nat \<Rightarrow> int list \<Rightarrow> error + nat list" where
  "wrap_indices n [] = Inr []"
| "wrap_indices n (i # is) =
     ebind (wrap_index n i) (\<lambda>p. ebind (wrap_indices n is) (\<lambda>ps. Inr (p # ps)))"

text \<open>
  The bounds of the slice \<^verbatim>\<open>s:e\<close> in a dimension of size \<open>n\<close>, as (first index, length).
\<close>

definition clamp_bound :: "nat \<Rightarrow> int \<Rightarrow> int" where
  "clamp_bound n s = (if s < 0 then max (s + int n) 0 else min s (int n))"

definition py_slice :: "nat \<Rightarrow> int \<Rightarrow> int \<Rightarrow> nat \<times> nat" where
  "py_slice n s e = (nat (clamp_bound n s), nat (clamp_bound n e - clamp_bound n s))"

text \<open>The tuple assignment \<^verbatim>\<open>(h, w) = t.shape\<close>.\<close>

definition unpack2 :: "nat list \<Rightarrow> error + nat \<times> nat" where
  "unpack2 sh = (case sh of [h, w] \<Rightarrow> Inr (h, w) | _ \<Rightarrow> Inl ValueError)"

subsection \<open>Torch operations\<close>

text \<open>\<^verbatim>\<open>torch.zeros\<close>: a negative dimension raises.\<close>

definition torch_zeros2 :: "int \<Rightarrow> int \<Rightarrow> error + real tensor" where
  "torch_zeros2 h w =
     (if h < 0 \<or> w < 0 then Inl RuntimeError
      else Inr (tab2 (nat h) (nat w) (\<lambda>y x. 0)))"

definition torch_zeros3 :: "int \<Rightarrow> int \<Rightarrow> int \<Rightarrow> error + real tensor" where
  "torch_zeros3 h n w =
     (if h < 0 \<or> n < 0 \<or> w < 0 then Inl RuntimeError
      else Inr (tab3 (nat h) (nat n) (nat w) (\<lambda>y p x. 0)))"

text \<open>
  \<^verbatim>\<open>torch.arange(start, end, step)\<close> on integers: the elements of the Python range, but a
  bound on the wrong side of the start raises.
\<close>

definition torch_arange :: "int \<Rightarrow> int \<Rightarrow> int \<Rightarrow> error + int list" where
  "torch_arange start stop step =
     (if (0 < step \<and> stop < start) \<or> (step < 0 \<and> start < stop) then Inl RuntimeError
      else Inr (py_range start stop step))"

text \<open>\<^verbatim>\<open>t.squeeze()\<close> drops every dimension of size 1.\<close>

definition squeeze :: "'a tensor \<Rightarrow> 'a tensor" where
  "squeeze t = \<lparr>shape = filter (\<lambda>d. d \<noteq> 1) (shape t), data = data t\<rparr>"

text \<open>
  \<^verbatim>\<open>t.view(h, -1)\<close> of a contiguous tensor: the elements stay, the second dimension is
  inferred. Torch refuses to infer it when \<open>h = 0\<close> ("the unspecified dimension size -1 can
  be any value and is ambiguous") and when \<open>h\<close> does not divide the number of elements.
\<close>

definition view_rows :: "'a tensor \<Rightarrow> nat \<Rightarrow> error + 'a tensor" where
  "view_rows t h =
     (if h = 0 \<or> numel (shape t) mod h \<noteq> 0 then Inl RuntimeError
      else Inr \<lparr>shape = [h, numel (shape t) div h], data = data t\<rparr>)"

text \<open>
  The operations below are applied to 2-D tensors only (the shape has been unpacked into
  two numbers before): \<^verbatim>\<open>t.t()\<close>, \<^verbatim>\<open>torch.flip(t, [0])\<close>, \<^verbatim>\<open>torch.flip(t, [1])\<close>, and
  the product with a scalar.
\<close>

definition transpose2 :: "'a tensor \<Rightarrow> 'a tensor" where
  "transpose2 t = tab2 (ncols t) (nrows t) (\<lambda>y x. get2 t x y)"

definition flip0 :: "'a tensor \<Rightarrow> 'a tensor" where
  "flip0 t = tab2 (nrows t) (ncols t) (\<lambda>y x. get2 t (nrows t - 1 - y) x)"

definition flip1 :: "'a tensor \<Rightarrow> 'a tensor" where
  "flip1 t = tab2 (nrows t) (ncols t) (\<lambda>y x. get2 t y (ncols t - 1 - x))"

definition scale :: "real tensor \<Rightarrow> real \<Rightarrow> real tensor" where
  "scale t c = \<lparr>shape = shape t, data = map (\<lambda>v. v * c) (data t)\<rparr>"

text \<open>
  \<^verbatim>\<open>torch.repeat_interleave(t.unsqueeze(1), n, dim=1)\<close>: \<open>n\<close> copies of the 2-D tensor \<open>t\<close>
  along a new middle dimension.
\<close>

definition repeat1 :: "'a tensor \<Rightarrow> nat \<Rightarrow> 'a tensor" where
  "repeat1 t n = tab3 (nrows t) n (ncols t) (\<lambda>y k x. get2 t y x)"

text \<open>
  \<^verbatim>\<open>t[:, idx, :] = v\<close> for a list \<open>idx\<close> of indices into the middle dimension of the 3-D
  tensor \<open>t\<close>: copy \<open>k\<close> of \<open>v\<close> goes to position \<open>idx[k]\<close>. Where an index repeats, the
  last copy stays (at both call sites all copies are equal). The shapes agree at both
  call sites, so no broadcasting takes place.
\<close>

definition last_pos :: "nat \<Rightarrow> nat list \<Rightarrow> nat option" where
  "last_pos p ps = find (\<lambda>k. ps ! k = p) (rev [0..<length ps])"

definition index_put1 :: "'a tensor \<Rightarrow> int list \<Rightarrow> 'a tensor \<Rightarrow> error + 'a tensor" where
  "index_put1 t idx v =
     (if shape v \<noteq> [shape t ! 0, length idx, shape t ! 2] then Inl RuntimeError
      else ebind (wrap_indices (shape t ! 1) idx) (\<lambda>ps.
        Inr (tab3 (shape t ! 0) (shape t ! 1) (shape t ! 2)
              (\<lambda>y p x. case last_pos p ps of None \<Rightarrow> get3 t y p x
                                            | Some k \<Rightarrow> get3 v y k x))))"

text \<open>\<^verbatim>\<open>t[:, i, :]\<close> and \<^verbatim>\<open>t[:, i, :] = v\<close> for an index \<open>i\<close> in range.\<close>

definition select1 :: "'a tensor \<Rightarrow> nat \<Rightarrow> 'a tensor" where
  "select1 t i = tab2 (shape t ! 0) (shape t ! 2) (\<lambda>y x. get3 t y i x)"

definition set_select1 :: "'a tensor \<Rightarrow> nat \<Rightarrow> 'a tensor \<Rightarrow> 'a tensor" where
  "set_select1 t i v =
     tab3 (shape t ! 0) (shape t ! 1) (shape t ! 2)
       (\<lambda>y p x. if p = i then get2 v y x else get3 t y p x)"

text \<open>
  Assignment to a rectangle, \<^verbatim>\<open>t[r0:r1, c0:c1] = src\<close> and \<^verbatim>\<open>t[r0:r1, j, c0:c1] = src\<close>:
  the 2-D source is broadcast to the rectangle (a dimension of size 1 is repeated), and
  any other difference of shape raises.
\<close>

definition broadcastable :: "nat \<Rightarrow> nat \<Rightarrow> bool" where
  "broadcastable s n \<longleftrightarrow> s = n \<or> s = 1"

definition bidx :: "nat \<Rightarrow> nat \<Rightarrow> nat" where
  "bidx s i = (if s = 1 then 0 else i)"

definition in_rect :: "nat \<times> nat \<Rightarrow> nat \<times> nat \<Rightarrow> nat \<Rightarrow> nat \<Rightarrow> bool" where
  "in_rect r c y x \<longleftrightarrow> fst r \<le> y \<and> y < fst r + snd r \<and> fst c \<le> x \<and> x < fst c + snd c"

definition set_slice2 ::
  "'a tensor \<Rightarrow> int \<times> int \<Rightarrow> int \<times> int \<Rightarrow> 'a tensor \<Rightarrow> error + 'a tensor" where
  "set_slice2 t rs cs src =
     (let r = py_slice (nrows t) (fst rs) (snd rs);
          c = py_slice (ncols t) (fst cs) (snd cs)
      in if broadcastable (nrows src) (snd r) \<and> broadcastable (ncols src) (snd c)
         then Inr (tab2 (nrows t) (ncols t)
                (\<lambda>y x. if in_rect r c y x
                        then get2 src (bidx (nrows src) (y - fst r)) (bidx (ncols src) (x - fst c))
                        else get2 t y x))
         else Inl RuntimeError)"

definition set_slice3 ::
  "'a tensor \<Rightarrow> int \<times> int \<Rightarrow> nat \<Rightarrow> int \<times> int \<Rightarrow> 'a tensor \<Rightarrow> error + 'a tensor" where
  "set_slice3 t rs j cs src =
     (let r = py_slice (shape t ! 0) (fst rs) (snd rs);
          c = py_slice (shape t ! 2) (fst cs) (snd cs)
      in if broadcastable (nrows src) (snd r) \<and> broadcastable (ncols src) (snd c)
         then Inr (tab3 (shape t ! 0) (shape t ! 1) (shape t ! 2)
                (\<lambda>y p x. if p = j \<and> in_rect r c y x
                          then get2 src (bidx (nrows src) (y - fst r)) (bidx (ncols src) (x - fst c))
                          else get3 t y p x))
         else Inl RuntimeError)"

text \<open>\<^verbatim>\<open>t[y0:y0+h, x0:x0+w]\<close>, read from a 2-D tensor (used to state what a region holds).\<close>

definition sub2 :: "'a tensor \<Rightarrow> nat \<Rightarrow> nat \<Rightarrow> nat \<Rightarrow> nat \<Rightarrow> 'a tensor" where
  "sub2 t y0 x0 h w = tab2 h w (\<lambda>y x. get2 t (y0 + y) (x0 + x))"

section \<open>The class Kaleidoscope\<close>

record Kaleidoscope =
  repNums :: "int \<times> int \<times> int \<times> int"
  padding :: "int \<times> int \<times> int \<times> int"
  reflectivity :: real

text \<open>The constructor stores its arguments as they are.\<close>

definition Kaleidoscope_init ::
  "int \<times> int \<times> int \<times> int \<Rightarrow> int \<times> int \<times> int \<times> int \<Rightarrow> real \<Rightarrow> Kaleidoscope" where
  "Kaleidoscope_init rn pd r = \<lparr>repNums = rn, padding = pd, reflectivity = r\<rparr>"

subsection \<open>ParaMirrorCavity\<close>

definition flipIdx :: "int \<times> int \<Rightarrow> int list" where
  "flipIdx num_reps =
     py_range (fst num_reps - 1) (- 1) (- 2)
     @ py_range (fst num_reps + 1) (fst num_reps + snd num_reps + 1) 2"

text \<open>
  \<^verbatim>\<open>list(set(range(0, sum(num_reps)+1)) - set(flipIdx))\<close>; the order of the list does not
  matter, every position receiving the same image.
\<close>

definition keepIdx :: "int \<times> int \<Rightarrow> int list" where
  "keepIdx num_reps =
     filter (\<lambda>k. k \<notin> set (flipIdx num_reps)) (py_range 0 (fst num_reps + snd num_reps + 1) 1)"

definition attenIdx :: "int \<times> int \<Rightarrow> error + int list" where
  "attenIdx num_reps =
     ebind (torch_arange (fst num_reps) 0 (- 1)) (\<lambda>a1.
     ebind (torch_arange 0 (snd num_reps + 1) 1) (\<lambda>a2. Inr (a1 @ a2)))"

text \<open>
  The loop \<^verbatim>\<open>for i in range(...): imageRow[:, i, :] = imageRow[:, i, :] * attenFactor[i]\<close>.
  The exponents in \<open>attenIdx\<close> are whole numbers that are not negative, so
  \<^verbatim>\<open>self.reflectivity ** attenIdx\<close> is a power with a natural exponent.
\<close>

fun atten_loop :: "real list \<Rightarrow> nat list \<Rightarrow> real tensor \<Rightarrow> error + real tensor" where
  "atten_loop af [] t = Inr t"
| "atten_loop af (i # is) t =
     (if i < length af
      then atten_loop af is (set_select1 t i (scale (select1 t i) (af ! i)))
      else Inl IndexError)"

definition ParaMirrorCavity ::
  "Kaleidoscope \<Rightarrow> real tensor \<Rightarrow> int \<times> int \<Rightarrow> error + real tensor" where
  "ParaMirrorCavity self im num_reps =
     ebind (unpack2 (shape im)) (\<lambda>(h, w).
     ebind (torch_zeros3 (int h) (fst num_reps + snd num_reps + 1) (int w)) (\<lambda>imageRow.
     ebind (attenIdx num_reps) (\<lambda>aidx.
     let attenFactor = map (\<lambda>d. reflectivity self ^ nat d) aidx;
         imHoriFlip = flip1 im
     in
     ebind (index_put1 imageRow (flipIdx num_reps)
              (repeat1 imHoriFlip (length (flipIdx num_reps)))) (\<lambda>imageRow.
     ebind (index_put1 imageRow (keepIdx num_reps)
              (repeat1 im (length (keepIdx num_reps)))) (\<lambda>imageRow.
     ebind (atten_loop attenFactor [0..<nat (fst num_reps + snd num_reps + 1)] imageRow)
       (\<lambda>imageRow.
     view_rows imageRow h))))))"

subsection \<open>KaleidoExpan\<close>

text \<open>
  The argument is a PIL image or a numpy array (converted by torchvision's \<^verbatim>\<open>ToTensor\<close>,
  a parameter of the model), a torch tensor, or anything else; in the last case no branch
  binds \<^verbatim>\<open>im\<close> and its first use raises.
\<close>

datatype 'p image_input = Picture 'p | Tensor "real tensor" | Other

definition KaleidoExpan ::
  "Kaleidoscope \<Rightarrow> ('p \<Rightarrow> error + real tensor) \<Rightarrow> 'p image_input \<Rightarrow> error + real tensor" where
  "KaleidoExpan self ToTensor original_image =
     ebind (case original_image of
              Picture p \<Rightarrow> ToTensor p
            | Tensor t \<Rightarrow> Inr t
            | Other \<Rightarrow> Inl UnboundLocalError) (\<lambda>im.
     let im = squeeze im in
     ebind (unpack2 (shape im)) (\<lambda>(h, w).
     case padding self of (pad0, pad1, pad2, pad3) \<Rightarrow>
     case repNums self of (rep0, rep1, rep2, rep3) \<Rightarrow>
     let h = int h + pad0 + pad1;
         w = int w + pad2 + pad3
     in
     ebind (torch_zeros2 h w) (\<lambda>im_padded.
     ebind (set_slice2 im_padded (pad0, h - pad1) (pad2, w - pad3) im) (\<lambda>im.
     ebind (ParaMirrorCavity self im (rep2, rep3)) (\<lambda>rowMirror.
     ebind (ParaMirrorCavity self (transpose2 rowMirror) (rep0, rep1)) (\<lambda>fullMirror.
     Inr (transpose2 fullMirror)))))))"

subsection \<open>KaleidoTransform\<close>

text \<open>
  \<^verbatim>\<open>matIn[r, :]\<close>, flattened as \<^verbatim>\<open>torch.take\<close> reads it, and \<^verbatim>\<open>torch.take\<close> itself; both
  accept negative indices and raise on an index out of range.
\<close>

definition select_row :: "'a tensor \<Rightarrow> int \<Rightarrow> error + 'a list" where
  "select_row m r =
     (case shape m of
        d0 # d1 # ds \<Rightarrow>
          ebind (wrap_index d0 r) (\<lambda>k.
            Inr (take (numel (d1 # ds)) (drop (k * numel (d1 # ds)) (data m))))
      | _ \<Rightarrow> Inl IndexError)"

fun torch_take :: "'a list \<Rightarrow> int list \<Rightarrow> error + 'a list" where
  "torch_take src [] = Inr []"
| "torch_take src (i # is) =
     ebind (wrap_index (length src) i) (\<lambda>k.
     ebind (torch_take src is) (\<lambda>rest. Inr (src ! k # rest)))"

text \<open>
  The unit block of one row of \<^verbatim>\<open>matIn\<close>:
  \<^verbatim>\<open>torch.take(matIn[blkIdx[i, j], :], pxIdx.view(-1,)).view(pxIdx.shape)\<close>.
\<close>

definition gather_block :: "real tensor \<Rightarrow> int tensor \<Rightarrow> int \<Rightarrow> error + real tensor" where
  "gather_block matIn pxIdx r =
     (let linIdx = data pxIdx in
      ebind (select_row matIn r) (\<lambda>row.
      ebind (torch_take row linIdx) (\<lambda>linBlk.
      Inr \<lparr>shape = shape pxIdx, data = linBlk\<rparr>)))"

text \<open>The branch on \<^verbatim>\<open>centerBlk\<close>, a tuple of integers of any length.\<close>

definition reflect_block :: "Kaleidoscope \<Rightarrow> int list \<Rightarrow> nat \<Rightarrow> nat \<Rightarrow> real tensor \<Rightarrow> real tensor" where
  "reflect_block self centerBlk i j blk2D =
     (if centerBlk = [] then blk2D
      else if length centerBlk = 2 then
        (let blk2D = (if (int i - centerBlk ! 0) mod 2 = 1 then flip0 blk2D else blk2D);
             blk2D = (if (int j - centerBlk ! 1) mod 2 = 1 then flip1 blk2D else blk2D)
         in scale blk2D
              (reflectivity self ^ nat (\<bar>int i - centerBlk ! 0\<bar> + \<bar>int j - centerBlk ! 1\<bar>)))
      else blk2D)"

text \<open>The block computed in iteration \<open>(i, j)\<close>, before it is written to its cell.\<close>

definition unit_block ::
  "Kaleidoscope \<Rightarrow> real tensor \<Rightarrow> int tensor \<Rightarrow> int tensor \<Rightarrow> int list \<Rightarrow> nat \<Rightarrow> nat
   \<Rightarrow> error + real tensor" where
  "unit_block self matIn pxIdx blkIdx centerBlk i j =
     ebind (gather_block matIn pxIdx (get2 blkIdx i j)) (\<lambda>blk2D.
     Inr (reflect_block self centerBlk i j blk2D))"

text \<open>The inner loop over the block columns \<open>j\<close> of block row \<open>i\<close>.\<close>

fun fill_row ::
  "Kaleidoscope \<Rightarrow> real tensor \<Rightarrow> int tensor \<Rightarrow> int tensor \<Rightarrow> int list \<Rightarrow> nat \<Rightarrow> nat list
   \<Rightarrow> real tensor \<Rightarrow> error + real tensor" where
  "fill_row self matIn pxIdx blkIdx centerBlk i [] transBlkRow = Inr transBlkRow"
| "fill_row self matIn pxIdx blkIdx centerBlk i (j # js) transBlkRow =
     ebind (unit_block self matIn pxIdx blkIdx centerBlk i j) (\<lambda>blk2D.
     case padding self of (pad0, pad1, pad2, pad3) \<Rightarrow>
     ebind (set_slice3 transBlkRow (pad0, pad0 + int (nrows pxIdx)) j
              (pad2, pad2 + int (ncols pxIdx)) blk2D) (\<lambda>transBlkRow.
     fill_row self matIn pxIdx blkIdx centerBlk i js transBlkRow))"

text \<open>The outer loop over the block rows \<open>i\<close>.\<close>

fun fill_grid ::
  "Kaleidoscope \<Rightarrow> real tensor \<Rightarrow> int tensor \<Rightarrow> int tensor \<Rightarrow> int list \<Rightarrow> int \<Rightarrow> int
   \<Rightarrow> nat list \<Rightarrow> real tensor \<Rightarrow> error + real tensor" where
  "fill_grid self matIn pxIdx blkIdx centerBlk blk_h_pad blk_w_pad [] transImage =
     Inr transImage"
| "fill_grid self matIn pxIdx blkIdx centerBlk blk_h_pad blk_w_pad (i # is) transImage =
     ebind (torch_zeros3 blk_h_pad (int (ncols blkIdx)) blk_w_pad) (\<lambda>transBlkRow.
     ebind (fill_row self matIn pxIdx blkIdx centerBlk i [0..<ncols blkIdx] transBlkRow)
       (\<lambda>transBlkRow.
     ebind (view_rows transBlkRow (nat blk_h_pad)) (\<lambda>rowImage.
     fill_grid self matIn pxIdx blkIdx centerBlk blk_h_pad blk_w_pad is
       (set_select1 transImage i (transpose2 rowImage)))))"

text \<open>
  The whole function. Its first component records the output buffer \<^verbatim>\<open>transImage\<close> once
  it has been allocated (the shape given to \<^verbatim>\<open>torch.zeros\<close>), whatever happens after; the
  second is the exception raised or the tensor returned.
\<close>

definition KaleidoTransform_run ::
  "Kaleidoscope \<Rightarrow> real tensor \<Rightarrow> int tensor \<Rightarrow> int tensor \<Rightarrow> int list
   \<Rightarrow> nat list option \<times> (error + real tensor)" where
  "KaleidoTransform_run self matIn pxIdx blkIdx centerBlk =
     (case padding self of (pad0, pad1, pad2, pad3) \<Rightarrow>
      case unpack2 (shape pxIdx) of
        Inl e \<Rightarrow> (None, Inl e)
      | Inr (blk_h, blk_w) \<Rightarrow>
      let blk_h_pad = int blk_h + (pad0 + pad1);
          blk_w_pad = int blk_w + (pad2 + pad3)
      in
      case unpack2 (shape blkIdx) of
        Inl e \<Rightarrow> (None, Inl e)
      | Inr (blk_rowCount, blk_colCount) \<Rightarrow>
      case torch_zeros3 (int blk_colCount * blk_w_pad) (int blk_rowCount) blk_h_pad of
        Inl e \<Rightarrow> (None, Inl e)
      | Inr transImage \<Rightarrow>
          (Some (shape transImage),
           ebind (fill_grid self matIn pxIdx blkIdx centerBlk blk_h_pad blk_w_pad
                    [0..<blk_rowCount] transImage) (\<lambda>transImage.
           ebind (view_rows transImage (nat (int blk_colCount * blk_w_pad))) (\<lambda>transImage.
           Inr (transpose2 transImage)))))"

definition KaleidoTransform ::
  "Kaleidoscope \<Rightarrow> real tensor \<Rightarrow> int tensor \<Rightarrow> int tensor \<Rightarrow> int list \<Rightarrow> error + real tensor" where
  "KaleidoTransform self matIn pxIdx blkIdx centerBlk =
     snd (KaleidoTransform_run self matIn pxIdx blkIdx centerBlk)"

section \<open>Notions used in the proofs\<close>

text \<open>
  What the cavity shows at position \<open>p\<close>: the element \<open>(y, x)\<close> of the image, read in
  reversed column order when \<open>p\<close> is at an odd distance from the original at position
  \<open>b\<close>, times the attenuation of that distance.
\<close>

definition cavity_tile :: "Kaleidoscope \<Rightarrow> real tensor \<Rightarrow> nat \<Rightarrow> nat \<Rightarrow> nat \<Rightarrow> nat \<Rightarrow> real" where
  "cavity_tile self im b p y x =
     (if odd (int p - int b) then get2 im y (ncols im - 1 - x) else get2 im y x)
     * reflectivity self ^ nat \<bar>int p - int b\<bar>"

text \<open>
  The value the block row \<open>i\<close> puts at row \<open>y\<close> of its cells and column \<open>X\<close> of the output:
  the element of block \<open>X div cell width\<close> inside the rectangle of the block, zero in the
  padding.
\<close>

definition cell_value ::
  "nat \<times> nat \<Rightarrow> nat \<times> nat \<Rightarrow> nat \<Rightarrow> (nat \<Rightarrow> real tensor) \<Rightarrow> nat \<Rightarrow> nat \<Rightarrow> real" where
  "cell_value r c bwp B X y =
     (if in_rect r c y (X mod bwp)
      then get2 (B (X div bwp)) (y - fst r) (X mod bwp - fst c) else 0)"

section \<open>Basic facts about tensors\<close>

lemma ebind_Inl [simp]: "ebind (Inl e) f = Inl e"
  by (simp add: ebind_def)

lemma ebind_Inr [simp]: "ebind (Inr x) f = f x"
  by (simp add: ebind_def)

lemma lin2_less: "y < h \<Longrightarrow> x < w \<Longrightarrow> y * w + x < h * (w::nat)"
proof -
  assume a: "y < h" "x < w"
  have "y * w + x < Suc y * w" using a by simp
  also have "\<dots> \<le> h * w" using a by (intro mult_le_mono1) simp
  finally show ?thesis .
qed

lemma lin3_less: "y < h \<Longrightarrow> p < n \<Longrightarrow> x < w \<Longrightarrow> (y * n + p) * w + x < h * n * (w::nat)"
  using lin2_less[of "y * n + p" "h * n" x w] lin2_less[of y h p n] by simp

lemma lin2_div: "x < w \<Longrightarrow> (y * w + x) div w = (y::nat)"
  by simp

lemma lin2_mod: "x < w \<Longrightarrow> (y * w + x) mod w = (x::nat)"
  by simp

lemma lin3_div: "p < n \<Longrightarrow> x < w \<Longrightarrow> ((y * n + p) * w + x) div (n * w) = (y::nat)"
proof -
  assume a: "p < n" "x < w"
  have "((y * n + p) * w + x) div (n * w) = ((y * n + p) * w + x) div w div n"
    by (simp only: mult.commute[of n w] div_mult2_eq)
  also have "\<dots> = (y * n + p) div n" using a by simp
  also have "\<dots> = y" using a by simp
  finally show ?thesis .
qed

lemma shape_tab2 [simp]: "shape (tab2 h w f) = [h, w]"
  by (simp add: tab2_def)

lemma shape_tab3 [simp]: "shape (tab3 h n w f) = [h, n, w]"
  by (simp add: tab3_def)

lemma wf_tab2 [simp]: "wf (tab2 h w f)"
  by (simp add: wf_def tab2_def numel_def)

lemma wf_tab3 [simp]: "wf (tab3 h n w f)"
  by (simp add: wf_def tab3_def numel_def mult.assoc)

lemma get2_tab2 [simp]: "y < h \<Longrightarrow> x < w \<Longrightarrow> get2 (tab2 h w f) y x = f y x"
  by (simp add: get2_def tab2_def lin2_less)

lemma get3_tab3 [simp]:
  "y < h \<Longrightarrow> p < n \<Longrightarrow> x < w \<Longrightarrow> get3 (tab3 h n w f) y p x = f y p x"
  by (simp add: get3_def tab3_def lin3_less lin3_div)

lemma nrows_tab2 [simp]: "nrows (tab2 h w f) = h"
  by (simp add: nrows_def)

lemma ncols_tab2 [simp]: "ncols (tab2 h w f) = w"
  by (simp add: ncols_def)

lemma tab2_cong: "(\<And>y x. y < h \<Longrightarrow> x < w \<Longrightarrow> f y x = g y x) \<Longrightarrow> tab2 h w f = tab2 h w g"
proof -
  assume a: "\<And>y x. y < h \<Longrightarrow> x < w \<Longrightarrow> f y x = g y x"
  have "f (k div w) (k mod w) = g (k div w) (k mod w)" if "k < h * w" for k
  proof -
    have "0 < w" using that by (cases w) auto
    moreover have "k div w < h" using that by (simp add: less_mult_imp_div_less)
    ultimately show ?thesis by (simp add: a)
  qed
  then show ?thesis by (simp add: tab2_def)
qed

lemma tab2_get2: "wf t \<Longrightarrow> shape t = [h, w] \<Longrightarrow> tab2 h w (get2 t) = t"
proof -
  assume a: "wf t" "shape t = [h, w]"
  have len: "length (data t) = h * w" using a by (simp add: wf_def numel_def)
  have "map (\<lambda>k. get2 t (k div w) (k mod w)) [0..<h * w] = map (\<lambda>k. data t ! k) [0..<h * w]"
    by (simp add: get2_def a)
  also have "\<dots> = data t" using len by (metis map_nth)
  finally show ?thesis using a by (simp add: tab2_def)
qed

lemma tensor_eqI2:
  assumes "wf a" "wf b" "shape a = [h, w]" "shape b = [h, w]"
    and "\<And>y x. y < h \<Longrightarrow> x < w \<Longrightarrow> get2 a y x = get2 b y x"
  shows "a = b"
proof -
  have "a = tab2 h w (get2 a)" using assms by (simp add: tab2_get2)
  also have "\<dots> = tab2 h w (get2 b)" using assms by (intro tab2_cong) simp
  also have "\<dots> = b" using assms by (simp add: tab2_get2)
  finally show ?thesis .
qed

subsection \<open>Ranges and index lists\<close>

lemma tab3_cong:
  "(\<And>y p x. y < h \<Longrightarrow> p < n \<Longrightarrow> x < w \<Longrightarrow> f y p x = g y p x) \<Longrightarrow> tab3 h n w f = tab3 h n w g"
proof -
  assume a: "\<And>y p x. y < h \<Longrightarrow> p < n \<Longrightarrow> x < w \<Longrightarrow> f y p x = g y p x"
  have "f (k div (n * w)) (k div w mod n) (k mod w) = g (k div (n * w)) (k div w mod n) (k mod w)"
    if "k < h * n * w" for k
  proof -
    have "0 < w" "0 < n" using that by (cases w; cases n; auto)+
    moreover have "k div (n * w) < h"
      using that by (simp add: less_mult_imp_div_less mult.assoc)
    ultimately show ?thesis by (simp add: a)
  qed
  then show ?thesis by (simp add: tab3_def)
qed

lemma set_py_range_up2:
  "v \<in> set (py_range s e 2) \<longleftrightarrow> s \<le> v \<and> v < e \<and> even (v - s)"
proof -
  define n where "n = nat ((e - s + 2 - 1) div 2)"
  have eq: "py_range s e 2 = map (\<lambda>k. s + int k * 2) [0..<n]"
    by (simp add: py_range_def n_def)
  have nk: "k < n \<longleftrightarrow> 2 * int k < e - s" for k
    unfolding n_def zless_nat_eq_int_zless by (simp; presburger)
  show ?thesis
  proof
    assume "v \<in> set (py_range s e 2)"
    then obtain k where "k < n" "v = s + int k * 2" by (auto simp: eq)
    then show "s \<le> v \<and> v < e \<and> even (v - s)" using nk[of k] by simp
  next
    assume a: "s \<le> v \<and> v < e \<and> even (v - s)"
    then have "even (v - s)" by blast
    then obtain m where m: "v - s = 2 * m" by (rule evenE)
    then have "0 \<le> m" using a by linarith
    then have "nat m < n" using nk[of "nat m"] a m by simp
    moreover have "v = s + int (nat m) * 2" using m \<open>0 \<le> m\<close> by simp
    ultimately have "v \<in> (\<lambda>k. s + int k * 2) ` set [0..<n]"
      by (intro image_eqI[where x = "nat m"]) simp_all
    then show "v \<in> set (py_range s e 2)" by (simp add: eq)
  qed
qed

lemma set_py_range_down2:
  "v \<in> set (py_range s e (- 2)) \<longleftrightarrow> e < v \<and> v \<le> s \<and> even (s - v)"
proof -
  define n where "n = nat ((s - e - (- 2) - 1) div (- (- 2)))"
  have eq: "py_range s e (- 2) = map (\<lambda>k. s + int k * (- 2)) [0..<n]"
    by (simp add: py_range_def n_def)
  have nk: "k < n \<longleftrightarrow> 2 * int k < s - e" for k
    unfolding n_def zless_nat_eq_int_zless by (simp; presburger)
  show ?thesis
  proof
    assume "v \<in> set (py_range s e (- 2))"
    then obtain k where "k < n" "v = s + int k * (- 2)" by (auto simp: eq)
    then show "e < v \<and> v \<le> s \<and> even (s - v)" using nk[of k] by simp
  next
    assume a: "e < v \<and> v \<le> s \<and> even (s - v)"
    then have "even (s - v)" by blast
    then obtain m where m: "s - v = 2 * m" by (rule evenE)
    then have "0 \<le> m" using a by linarith
    then have "nat m < n" using nk[of "nat m"] a m by simp
    moreover have "v = s + int (nat m) * (- 2)" using m \<open>0 \<le> m\<close> by simp
    ultimately have "v \<in> (\<lambda>k. s + int k * (- 2)) ` set [0..<n]"
      by (intro image_eqI[where x = "nat m"]) simp_all
    then show "v \<in> set (py_range s e (- 2))" by (simp add: eq)
  qed
qed

lemma py_range_up1: "py_range 0 e 1 = map int [0..<nat e]"
  by (simp add: py_range_def)

lemma set_py_range_up1: "v \<in> set (py_range 0 e 1) \<longleftrightarrow> 0 \<le> v \<and> v < e"
proof -
  have "0 \<le> v \<and> v < e \<Longrightarrow> \<exists>k<nat e. v = int k"
    by (rule exI[of _ "nat v"]) simp
  then show ?thesis by (auto simp: py_range_up1 image_iff)
qed

lemma py_range_down1: "py_range (int b) 0 (- 1) = map (\<lambda>k. int b - int k) [0..<b]"
  by (simp add: py_range_def)

lemma set_flipIdx:
  "v \<in> set (flipIdx (int b, int a)) \<longleftrightarrow> 0 \<le> v \<and> v \<le> int b + int a \<and> odd (v - int b)"
  by (simp only: flipIdx_def set_append Un_iff set_py_range_up2 set_py_range_down2
        fst_conv snd_conv) presburger

lemma set_keepIdx:
  "v \<in> set (keepIdx (int b, int a)) \<longleftrightarrow> 0 \<le> v \<and> v \<le> int b + int a \<and> even (v - int b)"
  by (simp only: keepIdx_def set_filter mem_Collect_eq set_flipIdx set_py_range_up1
        fst_conv snd_conv) presburger

lemma wrap_indices_in_range:
  "\<forall>v\<in>set idx. 0 \<le> v \<and> v < int n \<Longrightarrow> wrap_indices n idx = Inr (map nat idx)"
  by (induction idx) (auto simp: wrap_index_def)

lemma last_pos_None: "last_pos p ps = None \<longleftrightarrow> p \<notin> set ps"
  by (auto simp: last_pos_def find_None_iff in_set_conv_nth)

lemma last_pos_Some: "last_pos p ps = Some k \<Longrightarrow> k < length ps"
proof -
  assume "last_pos p ps = Some k"
  then obtain i where "i < length (rev [0..<length ps])" "k = rev [0..<length ps] ! i"
    unfolding last_pos_def find_Some_iff by blast
  then have "k \<in> set (rev [0..<length ps])" by (metis nth_mem)
  then show ?thesis by simp
qed

subsection \<open>Index assignment and the attenuation loop\<close>

lemma last_pos_Some_nth: "last_pos p ps = Some k \<Longrightarrow> ps ! k = p"
  by (auto simp: last_pos_def find_Some_iff)

lemma shape_scale [simp]: "shape (scale t c) = shape t"
  by (simp add: scale_def)

lemma wf_scale [simp]: "wf (scale t c) = wf t"
  by (simp add: scale_def wf_def)

lemma nrows_scale [simp]: "nrows (scale t c) = nrows t"
  by (simp add: nrows_def)

lemma ncols_scale [simp]: "ncols (scale t c) = ncols t"
  by (simp add: ncols_def)

lemma get2_scale:
  "wf t \<Longrightarrow> shape t = [h, w] \<Longrightarrow> y < h \<Longrightarrow> x < w \<Longrightarrow> get2 (scale t c) y x = get2 t y x * c"
  by (simp add: get2_def scale_def wf_def numel_def lin2_less)

lemma shape_repeat1 [simp]: "shape (repeat1 t n) = [nrows t, n, ncols t]"
  by (simp add: repeat1_def)

lemma nrows_shape2 [simp]: "shape t = [h, w] \<Longrightarrow> nrows t = h"
  by (simp add: nrows_def)

lemma ncols_shape2 [simp]: "shape t = [h, w] \<Longrightarrow> ncols t = w"
  by (simp add: ncols_def)

lemma index_put1_repeat:
  assumes t: "shape t = [h, n, w]" and src: "shape src = [h, w]"
    and idx: "\<forall>v\<in>set idx. 0 \<le> v \<and> v < int n"
  shows "index_put1 t idx (repeat1 src (length idx)) =
         Inr (tab3 h n w (\<lambda>y p x. if int p \<in> set idx then get2 src y x else get3 t y p x))"
proof -
  have "(case last_pos p (map nat idx) of None \<Rightarrow> get3 t y p x
         | Some k \<Rightarrow> get3 (repeat1 src (length idx)) y k x) =
        (if int p \<in> set idx then get2 src y x else get3 t y p x)"
    if "y < h" "p < n" "x < w" for y p x
  proof (cases "last_pos p (map nat idx)")
    case None
    then have "p \<notin> nat ` set idx" by (simp add: last_pos_None)
    then have "int p \<notin> set idx" by (metis image_eqI nat_int)
    then show ?thesis using None by simp
  next
    case (Some k)
    then have k: "k < length idx" "nat (idx ! k) = p"
      using last_pos_Some[OF Some] last_pos_Some_nth[OF Some] by simp_all
    then have "idx ! k \<in> set idx" by simp
    moreover from this have "0 \<le> idx ! k" using idx by blast
    ultimately have "int p \<in> set idx" using k by (metis int_nat_eq)
    then show ?thesis using Some k that src by (simp add: repeat1_def)
  qed
  then have "tab3 h n w (\<lambda>y p x. case last_pos p (map nat idx) of None \<Rightarrow> get3 t y p x
               | Some k \<Rightarrow> get3 (repeat1 src (length idx)) y k x) =
             tab3 h n w (\<lambda>y p x. if int p \<in> set idx then get2 src y x else get3 t y p x)"
    by (intro tab3_cong)
  then show ?thesis
    using t src by (simp add: index_put1_def wrap_indices_in_range[OF idx])
qed

lemma atten_step:
  assumes "shape t = [h, n, w]"
  shows "set_select1 t i (scale (select1 t i) c) =
         tab3 h n w (\<lambda>y p x. if p = i then get3 t y p x * c else get3 t y p x)"
  unfolding set_select1_def select1_def using assms
  by (auto intro!: tab3_cong simp: get2_scale[where h = h and w = w])

lemma atten_loop_result:
  assumes "shape t = [h, n, w]" "distinct js" "\<forall>i\<in>set js. i < length af"
  shows "atten_loop af js t =
         Inr (tab3 h n w (\<lambda>y p x. if p \<in> set js then get3 t y p x * af ! p else get3 t y p x))
         \<or> (js = [] \<and> atten_loop af js t = Inr t)"
  using assms
proof (induction js arbitrary: t)
  case Nil
  then show ?case by simp
next
  case (Cons i js)
  let ?t' = "tab3 h n w (\<lambda>y p x. if p = i then get3 t y p x * af ! i else get3 t y p x)"
  have step: "atten_loop af (i # js) t = atten_loop af js ?t'"
    using Cons.prems by (simp add: atten_step[where h = h and n = n and w = w])
  have sh: "shape ?t' = [h, n, w]" by simp
  have fin: "tab3 h n w (\<lambda>y p x. if p \<in> set js then get3 ?t' y p x * af ! p else get3 ?t' y p x)
      = tab3 h n w (\<lambda>y p x. if p \<in> set (i # js) then get3 t y p x * af ! p else get3 t y p x)"
    using Cons.prems(2) by (intro tab3_cong) auto
  from Cons.IH[OF sh] Cons.prems
  consider "atten_loop af js ?t' =
      Inr (tab3 h n w (\<lambda>y p x. if p \<in> set js then get3 ?t' y p x * af ! p else get3 ?t' y p x))"
    | "js = []" "atten_loop af js ?t' = Inr ?t'" by auto
  then show ?case
  proof cases
    case 1
    then show ?thesis using step fin by simp
  next
    case 2
    have "?t' = tab3 h n w (\<lambda>y p x. if p \<in> set (i # js) then get3 t y p x * af ! p else get3 t y p x)"
      using 2 by (intro tab3_cong) auto
    then show ?thesis using step 2 by simp
  qed
qed

section \<open>ParaMirrorCavity, element by element\<close>

lemma tab3_get3: "wf t \<Longrightarrow> shape t = [h, n, w] \<Longrightarrow> tab3 h n w (get3 t) = t"
proof -
  assume a: "wf t" "shape t = [h, n, w]"
  have len: "length (data t) = h * n * w" using a by (simp add: wf_def numel_def mult.assoc)
  have idx: "(k div (n * w) * n + k div w mod n) * w + k mod w = k" for k
  proof -
    have "k div (n * w) = k div w div n"
      by (simp only: mult.commute[of n w] div_mult2_eq)
    then show ?thesis by simp
  qed
  have "map (\<lambda>k. get3 t (k div (n * w)) (k div w mod n) (k mod w)) [0..<h * n * w]
        = map (\<lambda>k. data t ! k) [0..<h * n * w]"
    by (simp add: get3_def a idx)
  also have "\<dots> = data t" using len by (metis map_nth)
  finally show ?thesis using a by (simp add: tab3_def)
qed

lemma atten_loop_tab3:
  assumes "wf t" "shape t = [h, n, w]" "distinct js" "\<forall>i\<in>set js. i < length af"
  shows "atten_loop af js t =
         Inr (tab3 h n w (\<lambda>y p x. if p \<in> set js then get3 t y p x * af ! p else get3 t y p x))"
  using atten_loop_result[OF assms(2-4)] tab3_get3[OF assms(1,2)] by auto

lemma attenIdx_nat:
  "attenIdx (int b, int a) = Inr (map (\<lambda>p. \<bar>int p - int b\<bar>) [0..<b + a + 1])"
proof -
  have a1: "torch_arange (int b) 0 (- 1) = Inr (map (\<lambda>k. int b - int k) [0..<b])"
    by (simp add: torch_arange_def py_range_down1)
  have a2: "torch_arange 0 (int a + 1) 1 = Inr (map int [0..<Suc a])"
    by (simp add: torch_arange_def py_range_up1 nat_add_distrib)
  have "map (\<lambda>k. int b - int k) [0..<b] @ map int [0..<Suc a]
        = map (\<lambda>p. \<bar>int p - int b\<bar>) [0..<b + a + 1]"
    by (rule nth_equalityI) (auto simp: nth_append simp del: upt_Suc)
  then show ?thesis by (simp add: attenIdx_def a1 a2 del: upt_Suc)
qed

lemma view_rows_3d:
  "shape t = [h, n, w] \<Longrightarrow> 0 < h \<Longrightarrow>
   view_rows t h = Inr \<lparr>shape = [h, n * w], data = data t\<rparr>"
  by (simp add: view_rows_def numel_def)

lemma get2_view_3d:
  "shape t = [h, n, w] \<Longrightarrow> get2 \<lparr>shape = [h, n * w], data = data t\<rparr> y (p * w + x) = get3 t y p x"
  by (simp add: get2_def get3_def algebra_simps)

lemma ParaMirrorCavity_unfold:
  assumes sh: "shape im = [h, w]"
  shows "ParaMirrorCavity self im (int b, int a) =
         view_rows (tab3 h (b + a + 1) w (\<lambda>y p x. cavity_tile self im b p y x)) h"
proof -
  define T where "T = b + a + 1"
  define r where "r = reflectivity self"
  define z where "z = tab3 h T w (\<lambda>y p x. 0::real)"
  define fl where "fl = flipIdx (int b, int a)"
  define kp where "kp = keepIdx (int b, int a)"
  have natT: "nat (int b + int a + 1) = T" by (simp add: T_def)
  have fl: "v \<in> set fl \<longleftrightarrow> 0 \<le> v \<and> v < int T \<and> odd (v - int b)" for v
    unfolding fl_def set_flipIdx T_def by auto
  have kp: "v \<in> set kp \<longleftrightarrow> 0 \<le> v \<and> v < int T \<and> even (v - int b)" for v
    unfolding kp_def set_keepIdx T_def by auto
  have zeros: "torch_zeros3 (int h) (int b + int a + 1) (int w) = Inr z"
    unfolding torch_zeros3_def natT z_def by simp
  define t1 where "t1 = tab3 h T w (\<lambda>y p x. if int p \<in> set fl
                then get2 (flip1 im) y x else get3 z y p x)"
  have put1: "index_put1 z fl (repeat1 (flip1 im) (length fl)) = Inr t1"
    unfolding t1_def by (rule index_put1_repeat) (auto simp: flip1_def sh fl z_def)
  define t2 where "t2 = tab3 h T w (\<lambda>y p x. if int p \<in> set kp
                then get2 im y x else get3 t1 y p x)"
  have put2: "index_put1 t1 kp (repeat1 im (length kp)) = Inr t2"
    unfolding t2_def by (rule index_put1_repeat) (auto simp: sh kp t1_def)
  define af where "af = map (\<lambda>d. r ^ nat d) (map (\<lambda>p. \<bar>int p - int b\<bar>) [0..<T])"
  define t3 where "t3 = tab3 h T w (\<lambda>y p x. if p \<in> set [0..<T] then get3 t2 y p x * af ! p
                else get3 t2 y p x)"
  have loop: "atten_loop af [0..<nat (int b + int a + 1)] t2 = Inr t3"
    unfolding natT t3_def by (rule atten_loop_tab3) (simp_all add: t2_def af_def)
  have t3: "t3 = tab3 h T w (\<lambda>y p x. cavity_tile self im b p y x)"
    unfolding t3_def
  proof (rule tab3_cong)
    fix y p x assume yx: "y < h" "p < T" "x < w"
    have af: "af ! p = r ^ nat \<bar>int p - int b\<bar>"
      using yx by (simp add: af_def)
    have g2: "get3 t2 y p x = (if odd (int p - int b) then get2 im y (w - 1 - x) else get2 im y x)"
      using yx by (simp add: t2_def t1_def z_def kp fl flip1_def sh)
    show "(if p \<in> set [0..<T] then get3 t2 y p x * af ! p else get3 t2 y p x)
          = cavity_tile self im b p y x"
      using yx unfolding g2 af by (simp add: cavity_tile_def sh r_def)
  qed
  have aidx: "attenIdx (int b, int a) = Inr (map (\<lambda>p. \<bar>int p - int b\<bar>) [0..<T])"
    unfolding T_def by (rule attenIdx_nat)
  have "ParaMirrorCavity self im (int b, int a) = view_rows t3 h"
    unfolding ParaMirrorCavity_def Let_def fst_conv snd_conv sh
    by (simp only: unpack2_def list.case ebind_Inr prod.case zeros aidx
          put1[unfolded fl_def] put2[unfolded kp_def] loop[unfolded af_def r_def])
  then show ?thesis unfolding t3 T_def .
qed

lemma ParaMirrorCavity_result:
  assumes sh: "shape im = [h, w]" and h: "0 < h"
  shows "ParaMirrorCavity self im (int b, int a) =
         Inr \<lparr>shape = [h, (b + a + 1) * w],
              data = data (tab3 h (b + a + 1) w (\<lambda>y p x. cavity_tile self im b p y x))\<rparr>"
  unfolding ParaMirrorCavity_unfold[OF sh] by (rule view_rows_3d) (simp_all add: h)

lemma ParaMirrorCavity_no_rows:
  assumes sh: "shape im = [0, w]"
  shows "ParaMirrorCavity self im (int b, int a) = Inl RuntimeError"
  unfolding ParaMirrorCavity_unfold[OF sh] by (simp add: view_rows_def)

lemma get2_flip1:
  "shape t = [h, w] \<Longrightarrow> y < h \<Longrightarrow> x < w \<Longrightarrow> get2 (flip1 t) y x = get2 t y (w - 1 - x)"
  by (simp add: flip1_def)

lemma get2_flip0:
  "shape t = [h, w] \<Longrightarrow> y < h \<Longrightarrow> x < w \<Longrightarrow> get2 (flip0 t) y x = get2 t (h - 1 - y) x"
  by (simp add: flip0_def)

lemma shape_flip1 [simp]: "shape (flip1 t) = [nrows t, ncols t]"
  by (simp add: flip1_def)

lemma shape_flip0 [simp]: "shape (flip0 t) = [nrows t, ncols t]"
  by (simp add: flip0_def)

lemma wf_flip1 [simp]: "wf (flip1 t)"
  by (simp add: flip1_def)

lemma wf_flip0 [simp]: "wf (flip0 t)"
  by (simp add: flip0_def)

lemma shape_sub2 [simp]: "shape (sub2 t y0 x0 h w) = [h, w]"
  by (simp add: sub2_def)

lemma wf_sub2 [simp]: "wf (sub2 t y0 x0 h w)"
  by (simp add: sub2_def)

lemma get2_sub2 [simp]:
  "y < h \<Longrightarrow> x < w \<Longrightarrow> get2 (sub2 t y0 x0 h w) y x = get2 t (y0 + y) (x0 + x)"
  by (simp add: sub2_def)

lemma ParaMirrorCavity_get2:
  assumes sh: "shape im = [h, w]" and h: "0 < h"
    and out: "ParaMirrorCavity self im (int b, int a) = Inr out"
    and r: "y < h" "p \<le> b + a" "x < w"
  shows "get2 out y (p * w + x) = cavity_tile self im b p y x"
proof -
  let ?t = "tab3 h (b + a + 1) w (\<lambda>y p x. cavity_tile self im b p y x)"
  have eq: "out = \<lparr>shape = [h, (b + a + 1) * w], data = data ?t\<rparr>"
    using out ParaMirrorCavity_result[OF sh h, of self b a] by simp
  have "get2 \<lparr>shape = [h, (b + a + 1) * w], data = data ?t\<rparr> y (p * w + x) = get3 ?t y p x"
    by (rule get2_view_3d) (rule shape_tab3)
  also have "\<dots> = cavity_tile self im b p y x" using r by simp
  finally show ?thesis unfolding eq .
qed

lemma ParaMirrorCavity_tile:
  assumes wf: "wf im" and sh: "shape im = [h, w]" and h: "0 < h"
    and out: "ParaMirrorCavity self im (int b, int a) = Inr out"
    and p: "p \<le> b + a"
  shows "sub2 out 0 (p * w) h w =
         scale (if odd (int p - int b) then flip1 im else im)
           (reflectivity self ^ nat \<bar>int p - int b\<bar>)"
proof (rule tensor_eqI2[where h = h and w = w])
  fix y x assume yx: "y < h" "x < w"
  have "get2 (sub2 out 0 (p * w) h w) y x = cavity_tile self im b p y x"
    using yx ParaMirrorCavity_get2[OF sh h out _ p] by simp
  also have "\<dots> = get2 (scale (if odd (int p - int b) then flip1 im else im)
           (reflectivity self ^ nat \<bar>int p - int b\<bar>)) y x"
    using yx wf sh by (simp add: cavity_tile_def get2_scale[where h = h and w = w] get2_flip1)
  finally show "get2 (sub2 out 0 (p * w) h w) y x = \<dots>" .
qed (use wf sh in auto)

section \<open>KaleidoExpan\<close>

lemma py_slice_inner:
  "py_slice (a + n + b) (int a) (int a + int n + int b - int b) = (a, n)"
  by (simp add: py_slice_def clamp_bound_def)

lemma py_slice_offset:
  "py_slice (a + n + b) (int a) (int a + int n) = (a, n)"
  by (simp add: py_slice_def clamp_bound_def)

lemma shape_transpose2 [simp]: "shape (transpose2 t) = [ncols t, nrows t]"
  by (simp add: transpose2_def)

lemma wf_transpose2 [simp]: "wf (transpose2 t)"
  by (simp add: transpose2_def)

lemma get2_transpose2:
  "shape t = [h, w] \<Longrightarrow> y < w \<Longrightarrow> x < h \<Longrightarrow> get2 (transpose2 t) y x = get2 t x y"
  by (simp add: transpose2_def)

lemma unpack2_Inr: "unpack2 sh = Inr (h, w) \<longleftrightarrow> sh = [h, w]"
  by (auto simp: unpack2_def split: list.splits)

lemma unpack2_Inl: "length sh \<noteq> 2 \<Longrightarrow> unpack2 sh = Inl ValueError"
  by (auto simp: unpack2_def split: list.splits)

lemma KaleidoExpan_shape_aux:
  assumes inp: "original_image = Tensor t \<or> (\<exists>p. original_image = Picture p \<and> ToTensor p = Inr t)"
    and sh: "shape (squeeze t) = [H, W]"
    and pad: "padding self = (int pt, int pb, int pl, int pr)"
    and rep: "repNums self = (int ru, int rd, int rl, int rr)"
    and pos: "0 < H + pt + pb" "0 < W + pl + pr"
  shows "\<exists>out. KaleidoExpan self ToTensor original_image = Inr out \<and>
           shape out = [(H + pt + pb) * (ru + rd + 1), (W + pl + pr) * (rl + rr + 1)]"
proof -
  define h' where "h' = pt + H + pb"
  define w' where "w' = pl + W + pr"
  have conv: "ebind (case original_image of Picture p \<Rightarrow> ToTensor p | Tensor t \<Rightarrow> Inr t
                | Other \<Rightarrow> Inl UnboundLocalError) f = f t" for f :: "real tensor \<Rightarrow> error + real tensor"
    using inp by auto
  have hw: "int H + int pt + int pb = int h'" "int W + int pl + int pr = int w'"
    by (simp_all add: h'_def w'_def)
  have z: "torch_zeros2 (int h') (int w') = Inr (tab2 h' w' (\<lambda>y x. 0))"
    by (simp add: torch_zeros2_def)
  have sl: "py_slice h' (int pt) (int h' - int pb) = (pt, H)"
    "py_slice w' (int pl) (int w' - int pr) = (pl, W)"
    using py_slice_inner[of pt H pb] py_slice_inner[of pl W pr]
    by (simp_all add: h'_def w'_def)
  obtain padded where padded:
    "set_slice2 (tab2 h' w' (\<lambda>y x. 0)) (int pt, int h' - int pb) (int pl, int w' - int pr)
       (squeeze t) = Inr padded" "shape padded = [h', w']"
    by (simp add: set_slice2_def sl sh broadcastable_def Let_def)
  have h'pos: "0 < h'" and w'pos: "0 < w'" using pos unfolding h'_def w'_def by linarith+
  obtain rowMirror where rm: "ParaMirrorCavity self padded (int rl, int rr) = Inr rowMirror"
    "shape rowMirror = [h', (rl + rr + 1) * w']"
    using ParaMirrorCavity_result[OF padded(2) h'pos] by simp
  have sht: "shape (transpose2 rowMirror) = [(rl + rr + 1) * w', h']"
    using rm(2) by simp
  have "0 < (rl + rr + 1) * w'" using w'pos by simp
  from ParaMirrorCavity_result[OF sht this]
  obtain fullMirror where fm: "ParaMirrorCavity self (transpose2 rowMirror) (int ru, int rd) = Inr fullMirror"
    "shape fullMirror = [(rl + rr + 1) * w', (ru + rd + 1) * h']"
    by simp
  have "KaleidoExpan self ToTensor original_image = Inr (transpose2 fullMirror)"
    unfolding KaleidoExpan_def conv Let_def sh pad rep
    by (simp only: unpack2_def list.case ebind_Inr prod.case hw z padded rm fm)
  moreover have "shape (transpose2 fullMirror) =
      [(H + pt + pb) * (ru + rd + 1), (W + pl + pr) * (rl + rr + 1)]"
    using fm(2) by (simp add: h'_def w'_def algebra_simps)
  ultimately show ?thesis by blast
qed

section \<open>Claims about ParaMirrorCavity and KaleidoExpan\<close>









text \<open>
  C5 (as amended). For every input that squeezes to a 2-D image of shape \<open>(H, W)\<close> (so
  neither is 1), padding \<open>(pt, pb, pl, pr)\<close> and repNums \<open>(ru, rd, rl, rr)\<close>, with the
  padded height and width not zero, KaleidoExpan returns an array of shape
  \<open>((H + pt + pb) * (ru + rd + 1), (W + pl + pr) * (rl + rr + 1))\<close>.
\<close>

theorem KaleidoExpan_shape:
  assumes "original_image = Tensor t \<or> (\<exists>p. original_image = Picture p \<and> ToTensor p = Inr t)"
    and "shape (squeeze t) = [H, W]"
    and "padding self = (int pt, int pb, int pl, int pr)"
    and "repNums self = (int ru, int rd, int rl, int rr)"
    and "0 < H + pt + pb" and "0 < W + pl + pr"
  shows "\<exists>out. KaleidoExpan self ToTensor original_image = Inr out \<and>
           shape out = [(H + pt + pb) * (ru + rd + 1), (W + pl + pr) * (rl + rr + 1)]"
  using assms by (rule KaleidoExpan_shape_aux)

theorem KaleidoExpan_shape_witness:
  "\<exists>out. KaleidoExpan (Kaleidoscope_init (1, 2, 1, 1) (2, 2, 2, 2) 1) (\<lambda>p::unit. Inl ValueError)
            (Tensor (tab2 28 28 (\<lambda>y x. 0))) = Inr out \<and> shape out = [128, 96]"
proof -
  let ?K = "Kaleidoscope_init (1, 2, 1, 1) (2, 2, 2, 2) 1"
  have "\<exists>out. KaleidoExpan ?K (\<lambda>p::unit. Inl ValueError) (Tensor (tab2 28 28 (\<lambda>y x. 0))) = Inr out \<and>
          shape out = [(28 + 2 + 2) * (1 + 2 + 1), (28 + 2 + 2) * (1 + 1 + 1)]"
    by (rule KaleidoExpan_shape[where t = "tab2 28 28 (\<lambda>y x. 0)"])
      (simp_all add: squeeze_def Kaleidoscope_init_def)
  then show ?thesis by simp
qed

text \<open>
  C5 as stated fails for an image of height 1: \<^verbatim>\<open>squeeze()\<close> drops that dimension too and
  the shape no longer unpacks into two numbers.
\<close>

theorem KaleidoExpan_shape_counterexample:
  "KaleidoExpan (Kaleidoscope_init (1, 2, 1, 1) (2, 2, 2, 2) 1) (\<lambda>p::unit. Inl ValueError)
     (Tensor \<lparr>shape = [1, 3], data = [1, 2, 3]\<rparr>) = Inl ValueError"
  by code_simp

text \<open>
  C9. An input of KaleidoExpan that, after squeezing, has not exactly 2 dimensions makes
  the call fail: the unpacking \<^verbatim>\<open>(h, w) = im.shape\<close> raises.
\<close>

theorem KaleidoExpan_rejects_non_2d:
  assumes "original_image = Tensor t \<or> (\<exists>p. original_image = Picture p \<and> ToTensor p = Inr t)"
    and "length (shape (squeeze t)) \<noteq> 2"
  shows "KaleidoExpan self ToTensor original_image = Inl ValueError"
  using assms by (auto simp: KaleidoExpan_def unpack2_Inl)

theorem KaleidoExpan_rejects_non_2d_witness:
  "KaleidoExpan (Kaleidoscope_init (1, 2, 1, 1) (2, 2, 2, 2) 1)
     (\<lambda>p::unit. Inr \<lparr>shape = [3, 2, 2], data = replicate 12 0\<rparr>) (Picture ()) = Inl ValueError"
  by (rule KaleidoExpan_rejects_non_2d[where t = "\<lparr>shape = [3, 2, 2], data = replicate 12 0\<rparr>"])
    (simp_all add: squeeze_def)

section \<open>KaleidoTransform\<close>

lemma select_row_in_range:
  "shape m = [M, N] \<Longrightarrow> 0 \<le> r \<Longrightarrow> r < int M \<Longrightarrow>
   select_row m r = Inr (take N (drop (nat r * N) (data m)))"
  by (simp add: select_row_def wrap_index_def numel_def)

lemma torch_take_in_range:
  "\<forall>k\<in>set idx. 0 \<le> k \<and> k < int (length src) \<Longrightarrow>
   torch_take src idx = Inr (map (\<lambda>k. src ! nat k) idx)"
  by (induction idx) (auto simp: wrap_index_def)

lemma gather_block_in_range:
  assumes wf: "wf matIn" and sh: "shape matIn = [M, N]" and r: "0 \<le> r" "r < int M"
    and px: "\<forall>k\<in>set (data pxIdx). 0 \<le> k \<and> k < int N"
  shows "gather_block matIn pxIdx r =
         Inr \<lparr>shape = shape pxIdx,
              data = map (\<lambda>k. data matIn ! (nat r * N + nat k)) (data pxIdx)\<rparr>"
proof -
  let ?row = "take N (drop (nat r * N) (data matIn))"
  have len: "length (data matIn) = M * N" using wf sh by (simp add: wf_def numel_def)
  have "nat r < M" using r by simp
  then have "nat r * N + N \<le> M * N"
    by (metis Suc_leI mult_Suc mult_le_mono1 add.commute)
  then have lrow: "length ?row = N" using len by simp
  have el: "?row ! nat k = data matIn ! (nat r * N + nat k)" if "k \<in> set (data pxIdx)" for k
  proof -
    have "nat k < N" using px that by auto
    moreover have "nat r * N \<le> length (data matIn)"
      using \<open>nat r * N + N \<le> M * N\<close> len by linarith
    ultimately show ?thesis by (simp add: nth_drop)
  qed
  have "torch_take ?row (data pxIdx) = Inr (map (\<lambda>k. ?row ! nat k) (data pxIdx))"
    by (rule torch_take_in_range) (simp add: lrow px del: length_take length_drop)
  also have "map (\<lambda>k. ?row ! nat k) (data pxIdx)
             = map (\<lambda>k. data matIn ! (nat r * N + nat k)) (data pxIdx)"
    using el by (intro map_cong) auto
  finally show ?thesis
    by (simp add: gather_block_def select_row_in_range[OF sh r] Let_def)
qed

lemma shape_reflect_block:
  "shape blk = [bh, bw] \<Longrightarrow> shape (reflect_block self cb i j blk) = [bh, bw]"
  by (simp add: reflect_block_def Let_def)

lemma wf_reflect_block:
  "wf blk \<Longrightarrow> wf (reflect_block self cb i j blk)"
  by (simp add: reflect_block_def Let_def)

lemma set_slice3_padded:
  assumes t: "shape t = [pt + bh + pb, gw, pl + bw + pr]" and src: "shape src = [bh, bw]"
  shows "set_slice3 t (int pt, int pt + int bh) j (int pl, int pl + int bw) src =
         Inr (tab3 (pt + bh + pb) gw (pl + bw + pr)
               (\<lambda>y p x. if p = j \<and> in_rect (pt, bh) (pl, bw) y x
                         then get2 src (y - pt) (x - pl) else get3 t y p x))"
proof -
  have "tab3 (pt + bh + pb) gw (pl + bw + pr)
          (\<lambda>y p x. if p = j \<and> in_rect (pt, bh) (pl, bw) y x
                    then get2 src (bidx (nrows src) (y - fst (pt, bh)))
                           (bidx (ncols src) (x - fst (pl, bw)))
                    else get3 t y p x)
        = tab3 (pt + bh + pb) gw (pl + bw + pr)
          (\<lambda>y p x. if p = j \<and> in_rect (pt, bh) (pl, bw) y x
                    then get2 src (y - pt) (x - pl) else get3 t y p x)"
    using src by (intro tab3_cong) (auto simp: in_rect_def bidx_def nrows_def ncols_def)
  then show ?thesis
    using t src
    by (simp add: set_slice3_def py_slice_offset broadcastable_def Let_def nrows_def ncols_def)
qed

lemma fill_row_result:
  assumes pad: "padding self = (int pt, int pb, int pl, int pr)"
    and px: "shape pxIdx = [bh, bw]"
    and t: "wf t" "shape t = [pt + bh + pb, gw, pl + bw + pr]"
    and js: "distinct js"
    and blk: "\<forall>j\<in>set js. unit_block self matIn pxIdx blkIdx cb i j = Inr (B j) \<and> shape (B j) = [bh, bw]"
  shows "fill_row self matIn pxIdx blkIdx cb i js t =
         Inr (tab3 (pt + bh + pb) gw (pl + bw + pr)
               (\<lambda>y p x. if p \<in> set js \<and> in_rect (pt, bh) (pl, bw) y x
                         then get2 (B p) (y - pt) (x - pl) else get3 t y p x))"
  using t js blk
proof (induction js arbitrary: t)
  case Nil
  then show ?case by (simp add: tab3_get3)
next
  case (Cons j js)
  let ?t' = "tab3 (pt + bh + pb) gw (pl + bw + pr)
               (\<lambda>y p x. if p = j \<and> in_rect (pt, bh) (pl, bw) y x
                         then get2 (B j) (y - pt) (x - pl) else get3 t y p x)"
  have Bj: "unit_block self matIn pxIdx blkIdx cb i j = Inr (B j)" "shape (B j) = [bh, bw]"
    using Cons.prems by simp_all
  have step: "fill_row self matIn pxIdx blkIdx cb i (j # js) t =
              fill_row self matIn pxIdx blkIdx cb i js ?t'"
    by (simp add: Bj pad px set_slice3_padded[OF Cons.prems(2) Bj(2)])
  have "fill_row self matIn pxIdx blkIdx cb i js ?t' =
        Inr (tab3 (pt + bh + pb) gw (pl + bw + pr)
               (\<lambda>y p x. if p \<in> set js \<and> in_rect (pt, bh) (pl, bw) y x
                         then get2 (B p) (y - pt) (x - pl) else get3 ?t' y p x))"
    using Cons.prems by (intro Cons.IH) simp_all
  also have "tab3 (pt + bh + pb) gw (pl + bw + pr)
               (\<lambda>y p x. if p \<in> set js \<and> in_rect (pt, bh) (pl, bw) y x
                         then get2 (B p) (y - pt) (x - pl) else get3 ?t' y p x)
           = tab3 (pt + bh + pb) gw (pl + bw + pr)
               (\<lambda>y p x. if p \<in> set (j # js) \<and> in_rect (pt, bh) (pl, bw) y x
                         then get2 (B p) (y - pt) (x - pl) else get3 t y p x)"
    by (intro tab3_cong) auto
  finally show ?case using step by simp
qed

lemma grid_row_image:
  assumes pad: "padding self = (int pt, int pb, int pl, int pr)"
    and px: "shape pxIdx = [bh, bw]" and bl: "shape blkIdx = [gh, gw]"
    and ti: "shape ti = [gw * (pl + bw + pr), gh, pt + bh + pb]"
    and pos: "0 < pt + bh + pb"
    and blk: "\<forall>j<gw. unit_block self matIn pxIdx blkIdx cb i j = Inr (B j) \<and> shape (B j) = [bh, bw]"
  shows "\<exists>rowImage.
           ebind (torch_zeros3 (int (pt + bh + pb)) (int (ncols blkIdx)) (int (pl + bw + pr)))
             (\<lambda>transBlkRow.
           ebind (fill_row self matIn pxIdx blkIdx cb i [0..<ncols blkIdx] transBlkRow)
             (\<lambda>transBlkRow. view_rows transBlkRow (nat (int (pt + bh + pb))))) = Inr rowImage \<and>
           set_select1 ti i (transpose2 rowImage) =
           tab3 (gw * (pl + bw + pr)) gh (pt + bh + pb)
             (\<lambda>X p y. if p = i then cell_value (pt, bh) (pl, bw) (pl + bw + pr) B X y
                       else get3 ti X p y)"
proof -
  define bhp where "bhp = pt + bh + pb"
  define bwp where "bwp = pl + bw + pr"
  define z where "z = tab3 bhp gw bwp (\<lambda>y p x. 0::real)"
  define R where "R = tab3 bhp gw bwp
               (\<lambda>y p x. if p \<in> set [0..<gw] \<and> in_rect (pt, bh) (pl, bw) y x
                         then get2 (B p) (y - pt) (x - pl) else get3 z y p x)"
  define V where "V = \<lparr>shape = [bhp, gw * bwp], data = data R\<rparr>"
  have nc: "ncols blkIdx = gw" using bl by (simp add: ncols_def)
  have zeros: "torch_zeros3 (int bhp) (int gw) (int bwp) = Inr z"
    by (simp add: torch_zeros3_def z_def)
  have row: "fill_row self matIn pxIdx blkIdx cb i [0..<gw] z = Inr R"
    unfolding R_def bhp_def bwp_def
    by (rule fill_row_result[OF pad px]) (use blk in \<open>simp_all add: z_def bhp_def bwp_def\<close>)
  have posb: "0 < bhp" using pos unfolding bhp_def .
  have view: "view_rows R bhp = Inr V"
    unfolding V_def by (rule view_rows_3d) (simp_all add: R_def posb)
  have shV: "shape V = [bhp, gw * bwp]" by (simp add: V_def)
  have el: "get2 (transpose2 V) X y = cell_value (pt, bh) (pl, bw) bwp B X y"
    if "X < gw * bwp" "y < bhp" for X y
  proof -
    have "0 < bwp" using that by (cases bwp) auto
    have d: "X div bwp < gw" using that by (simp add: less_mult_imp_div_less)
    have m: "X mod bwp < bwp" using \<open>0 < bwp\<close> by simp
    have "get2 (transpose2 V) X y = get2 V y X"
      using that by (simp add: get2_transpose2[OF shV])
    also have "\<dots> = get2 V y (X div bwp * bwp + X mod bwp)" by simp
    also have "\<dots> = get3 R y (X div bwp) (X mod bwp)"
      unfolding V_def by (rule get2_view_3d) (simp add: R_def)
    also have "\<dots> = cell_value (pt, bh) (pl, bw) bwp B X y"
      using that d m by (simp add: R_def z_def cell_value_def)
    finally show ?thesis .
  qed
  have ti': "shape ti = [gw * bwp, gh, bhp]" using ti by (simp add: bhp_def bwp_def)
  have sel: "set_select1 ti i (transpose2 V) =
        tab3 (gw * bwp) gh bhp
          (\<lambda>X p y. if p = i then cell_value (pt, bh) (pl, bw) bwp B X y else get3 ti X p y)"
    unfolding set_select1_def using ti'
    by simp (rule tab3_cong, simp add: el)
  have "\<exists>rowImage.
           ebind (torch_zeros3 (int bhp) (int (ncols blkIdx)) (int bwp))
             (\<lambda>transBlkRow.
           ebind (fill_row self matIn pxIdx blkIdx cb i [0..<ncols blkIdx] transBlkRow)
             (\<lambda>transBlkRow. view_rows transBlkRow (nat (int bhp)))) = Inr rowImage \<and>
           set_select1 ti i (transpose2 rowImage) =
           tab3 (gw * bwp) gh bhp
             (\<lambda>X p y. if p = i then cell_value (pt, bh) (pl, bw) bwp B X y
                       else get3 ti X p y)"
    unfolding nc using zeros row view sel by simp
  then show ?thesis unfolding bhp_def bwp_def .
qed

lemma fill_grid_step:
  "fill_grid self matIn pxIdx blkIdx cb bhp bwp (i # is) ti =
   ebind (ebind (torch_zeros3 bhp (int (ncols blkIdx)) bwp) (\<lambda>transBlkRow.
          ebind (fill_row self matIn pxIdx blkIdx cb i [0..<ncols blkIdx] transBlkRow)
            (\<lambda>transBlkRow. view_rows transBlkRow (nat bhp))))
     (\<lambda>rowImage. fill_grid self matIn pxIdx blkIdx cb bhp bwp is
                    (set_select1 ti i (transpose2 rowImage)))"
  by (simp add: ebind_def split: sum.splits)

lemma fill_grid_result:
  assumes pad: "padding self = (int pt, int pb, int pl, int pr)"
    and px: "shape pxIdx = [bh, bw]" and bl: "shape blkIdx = [gh, gw]"
    and ti: "wf ti" "shape ti = [gw * (pl + bw + pr), gh, pt + bh + pb]"
    and rows: "distinct rs" "rs = [] \<or> 0 < pt + bh + pb"
    and blk: "\<forall>i\<in>set rs. \<forall>j<gw.
                unit_block self matIn pxIdx blkIdx cb i j = Inr (B i j) \<and> shape (B i j) = [bh, bw]"
  shows "fill_grid self matIn pxIdx blkIdx cb (int (pt + bh + pb)) (int (pl + bw + pr)) rs ti =
         Inr (tab3 (gw * (pl + bw + pr)) gh (pt + bh + pb)
               (\<lambda>X p y. if p \<in> set rs then cell_value (pt, bh) (pl, bw) (pl + bw + pr) (B p) X y
                         else get3 ti X p y))"
  using ti rows blk
proof (induction rs arbitrary: ti)
  case Nil
  then show ?case by (simp add: tab3_get3)
next
  case (Cons i rs)
  let ?t' = "tab3 (gw * (pl + bw + pr)) gh (pt + bh + pb)
             (\<lambda>X p y. if p = i then cell_value (pt, bh) (pl, bw) (pl + bw + pr) (B i) X y
                       else get3 ti X p y)"
  have pos: "0 < pt + bh + pb" using Cons.prems(4) by simp
  have "\<forall>j<gw. unit_block self matIn pxIdx blkIdx cb i j = Inr (B i j) \<and> shape (B i j) = [bh, bw]"
    using Cons.prems(5) by simp
  from grid_row_image[OF pad px bl Cons.prems(2) pos this]
  have step: "fill_grid self matIn pxIdx blkIdx cb (int (pt + bh + pb)) (int (pl + bw + pr)) (i # rs) ti
              = fill_grid self matIn pxIdx blkIdx cb (int (pt + bh + pb)) (int (pl + bw + pr)) rs ?t'"
    unfolding fill_grid_step by auto
  have "fill_grid self matIn pxIdx blkIdx cb (int (pt + bh + pb)) (int (pl + bw + pr)) rs ?t' =
        Inr (tab3 (gw * (pl + bw + pr)) gh (pt + bh + pb)
               (\<lambda>X p y. if p \<in> set rs then cell_value (pt, bh) (pl, bw) (pl + bw + pr) (B p) X y
                         else get3 ?t' X p y))"
    using Cons.prems pos by (intro Cons.IH) simp_all
  also have "tab3 (gw * (pl + bw + pr)) gh (pt + bh + pb)
               (\<lambda>X p y. if p \<in> set rs then cell_value (pt, bh) (pl, bw) (pl + bw + pr) (B p) X y
                         else get3 ?t' X p y)
           = tab3 (gw * (pl + bw + pr)) gh (pt + bh + pb)
               (\<lambda>X p y. if p \<in> set (i # rs)
                         then cell_value (pt, bh) (pl, bw) (pl + bw + pr) (B p) X y
                         else get3 ti X p y)"
    by (intro tab3_cong) auto
  finally show ?case using step by simp
qed

lemma KaleidoTransform_run_result:
  assumes pad: "padding self = (int pt, int pb, int pl, int pr)"
    and px: "shape pxIdx = [bh, bw]" and bl: "shape blkIdx = [gh, gw]"
    and pos: "0 < gw" "0 < pl + bw + pr" "gh = 0 \<or> 0 < pt + bh + pb"
    and blk: "\<forall>i<gh. \<forall>j<gw.
                unit_block self matIn pxIdx blkIdx cb i j = Inr (B i j) \<and> shape (B i j) = [bh, bw]"
  shows "\<exists>out. KaleidoTransform_run self matIn pxIdx blkIdx cb =
                 (Some [gw * (pl + bw + pr), gh, pt + bh + pb], Inr out) \<and>
           wf out \<and> shape out = [gh * (pt + bh + pb), gw * (pl + bw + pr)] \<and>
           (\<forall>i<gh. \<forall>j<gw. \<forall>y<pt + bh + pb. \<forall>x<pl + bw + pr.
              get2 out (i * (pt + bh + pb) + y) (j * (pl + bw + pr) + x) =
              (if in_rect (pt, bh) (pl, bw) y x then get2 (B i j) (y - pt) (x - pl) else 0))"
proof -
  define bhp where "bhp = pt + bh + pb"
  define bwp where "bwp = pl + bw + pr"
  define z where "z = tab3 (gw * bwp) gh bhp (\<lambda>y p x. 0::real)"
  define G where "G = tab3 (gw * bwp) gh bhp
               (\<lambda>X p y. if p \<in> set [0..<gh] then cell_value (pt, bh) (pl, bw) bwp (B p) X y
                         else get3 z X p y)"
  define V where "V = \<lparr>shape = [gw * bwp, gh * bhp], data = data G\<rparr>"
  have ih: "int bh + (int pt + int pb) = int bhp" "int bw + (int pl + int pr) = int bwp"
    by (simp_all add: bhp_def bwp_def)
  have iw: "int gw * int bwp = int (gw * bwp)" by simp
  have zeros: "torch_zeros3 (int (gw * bwp)) (int gh) (int bhp) = Inr z"
    unfolding torch_zeros3_def z_def by (simp only: nat_int of_nat_less_0_iff if_False simp_thms)
  have grid: "fill_grid self matIn pxIdx blkIdx cb (int bhp) (int bwp) [0..<gh] z = Inr G"
    unfolding G_def bhp_def bwp_def
    by (rule fill_grid_result[OF pad px bl])
       (use pos blk in \<open>auto simp: z_def bhp_def bwp_def\<close>)
  have shz: "shape z = [gw * bwp, gh, bhp]" by (simp add: z_def)
  have wpos: "0 < gw" "0 < bwp" using pos unfolding bwp_def by blast+
  have view: "view_rows G (gw * bwp) = Inr V"
    unfolding V_def by (rule view_rows_3d) (simp_all add: G_def wpos)
  have shV: "shape V = [gw * bwp, gh * bhp]" by (simp add: V_def)
  have run: "KaleidoTransform_run self matIn pxIdx blkIdx cb =
             (Some [gw * bwp, gh, bhp], Inr (transpose2 V))"
    unfolding KaleidoTransform_run_def pad px bl
    by (simp only: prod.case unpack2_def list.case sum.case Let_def ih iw zeros grid view
          ebind_Inr nat_int shz)
  have el: "get2 (transpose2 V) (i * bhp + y) (j * bwp + x) =
            (if in_rect (pt, bh) (pl, bw) y x then get2 (B i j) (y - pt) (x - pl) else 0)"
    if "i < gh" "j < gw" "y < bhp" "x < bwp" for i j y x
  proof -
    have "get2 (transpose2 V) (i * bhp + y) (j * bwp + x) = get2 V (j * bwp + x) (i * bhp + y)"
      using that by (simp add: get2_transpose2[OF shV] lin2_less)
    also have "\<dots> = get3 G (j * bwp + x) i y"
      unfolding V_def by (rule get2_view_3d) (simp add: G_def)
    also have "\<dots> = cell_value (pt, bh) (pl, bw) bwp (B i) (j * bwp + x) y"
      using that by (simp add: G_def lin2_less)
    also have "\<dots> = (if in_rect (pt, bh) (pl, bw) y x then get2 (B i j) (y - pt) (x - pl) else 0)"
      using that by (simp add: cell_value_def)
    finally show ?thesis .
  qed
  have "KaleidoTransform_run self matIn pxIdx blkIdx cb =
          (Some [gw * bwp, gh, bhp], Inr (transpose2 V)) \<and>
        wf (transpose2 V) \<and> shape (transpose2 V) = [gh * bhp, gw * bwp] \<and>
        (\<forall>i<gh. \<forall>j<gw. \<forall>y<bhp. \<forall>x<bwp.
              get2 (transpose2 V) (i * bhp + y) (j * bwp + x) =
              (if in_rect (pt, bh) (pl, bw) y x then get2 (B i j) (y - pt) (x - pl) else 0))"
    using run el by (simp add: V_def nrows_def ncols_def)
  then show ?thesis unfolding bhp_def bwp_def by blast
qed

subsection \<open>How the loops fail\<close>

lemma wrap_index_cases: "wrap_index n i = Inl IndexError \<or> (\<exists>k. wrap_index n i = Inr k)"
  by (simp add: wrap_index_def)

lemma torch_take_cases:
  "torch_take src idx = Inl IndexError \<or> (\<exists>r. torch_take src idx = Inr r \<and> length r = length idx)"
proof (induction idx)
  case Nil
  then show ?case by simp
next
  case (Cons i idx)
  then show ?case using wrap_index_cases[of "length src" i] by auto
qed

lemma select_row_cases: "select_row m r = Inl IndexError \<or> (\<exists>row. select_row m r = Inr row)"
proof (cases "shape m")
  case Nil
  then show ?thesis by (simp add: select_row_def)
next
  case (Cons d0 ds)
  then show ?thesis using wrap_index_cases[of d0 r]
    by (cases ds) (auto simp: select_row_def)
qed

lemma gather_block_cases:
  "gather_block matIn pxIdx r = Inl IndexError \<or>
   (\<exists>G. gather_block matIn pxIdx r = Inr G \<and> shape G = shape pxIdx \<and>
        length (data G) = length (data pxIdx))"
proof -
  consider "select_row matIn r = Inl IndexError" | row where "select_row matIn r = Inr row"
    using select_row_cases by blast
  then show ?thesis
  proof cases
    case 1
    then show ?thesis by (simp add: gather_block_def)
  next
    case 2
    then show ?thesis using torch_take_cases[of row "data pxIdx"]
      by (auto simp: gather_block_def)
  qed
qed

lemma unit_block_cases:
  assumes "shape pxIdx = [bh, bw]"
  shows "unit_block self matIn pxIdx blkIdx cb i j = Inl IndexError \<or>
         (\<exists>B. unit_block self matIn pxIdx blkIdx cb i j = Inr B \<and> shape B = [bh, bw])"
  using gather_block_cases[of matIn pxIdx "get2 blkIdx i j"] assms
  by (auto simp: unit_block_def shape_reflect_block)

lemma unit_block_wf:
  assumes "wf pxIdx" and "unit_block self matIn pxIdx blkIdx cb i j = Inr B"
  shows "wf B"
proof -
  from assms(2) obtain G where G: "gather_block matIn pxIdx (get2 blkIdx i j) = Inr G"
    "B = reflect_block self cb i j G"
    by (auto simp: unit_block_def ebind_def split: sum.splits)
  then have "wf G" using gather_block_cases[of matIn pxIdx "get2 blkIdx i j"] assms(1)
    by (auto simp: wf_def)
  then show ?thesis using G by (simp add: wf_reflect_block)
qed

lemma fill_row_cases:
  assumes pad: "padding self = (int pt, int pb, int pl, int pr)"
    and px: "shape pxIdx = [bh, bw]"
    and t: "shape t = [pt + bh + pb, gw, pl + bw + pr]"
  shows "fill_row self matIn pxIdx blkIdx cb i js t = Inl IndexError \<or>
         (\<exists>t'. fill_row self matIn pxIdx blkIdx cb i js t = Inr t' \<and>
               (\<forall>j\<in>set js. \<exists>B. unit_block self matIn pxIdx blkIdx cb i j = Inr B))"
  using t
proof (induction js arbitrary: t)
  case Nil
  then show ?case by simp
next
  case (Cons j js)
  consider "unit_block self matIn pxIdx blkIdx cb i j = Inl IndexError"
    | B where "unit_block self matIn pxIdx blkIdx cb i j = Inr B" "shape B = [bh, bw]"
    using unit_block_cases[OF px] by blast
  then show ?case
  proof cases
    case 1
    then show ?thesis by simp
  next
    case 2
    let ?t' = "tab3 (pt + bh + pb) gw (pl + bw + pr)
               (\<lambda>y p x. if p = j \<and> in_rect (pt, bh) (pl, bw) y x
                         then get2 B (y - pt) (x - pl) else get3 t y p x)"
    have step: "fill_row self matIn pxIdx blkIdx cb i (j # js) t =
                fill_row self matIn pxIdx blkIdx cb i js ?t'"
      by (simp add: 2 pad px set_slice3_padded[OF Cons.prems 2(2)])
    have "shape ?t' = [pt + bh + pb, gw, pl + bw + pr]" by simp
    from Cons.IH[OF this] show ?thesis unfolding step using 2(1) by auto
  qed
qed

lemma fill_row_shape:
  assumes pad: "padding self = (int pt, int pb, int pl, int pr)"
    and px: "shape pxIdx = [bh, bw]"
    and t: "shape t = [pt + bh + pb, gw, pl + bw + pr]"
    and r: "fill_row self matIn pxIdx blkIdx cb i js t = Inr t'"
  shows "shape t' = [pt + bh + pb, gw, pl + bw + pr]"
  using t r
proof (induction js arbitrary: t)
  case Nil
  then show ?case by simp
next
  case (Cons j js)
  from Cons.prems(2) obtain B where B: "unit_block self matIn pxIdx blkIdx cb i j = Inr B"
    by (cases "unit_block self matIn pxIdx blkIdx cb i j") auto
  then have shB: "shape B = [bh, bw]" using unit_block_cases[OF px, of self matIn blkIdx cb i j] by auto
  let ?t' = "tab3 (pt + bh + pb) gw (pl + bw + pr)
               (\<lambda>y p x. if p = j \<and> in_rect (pt, bh) (pl, bw) y x
                         then get2 B (y - pt) (x - pl) else get3 t y p x)"
  have step: "fill_row self matIn pxIdx blkIdx cb i (j # js) t =
              fill_row self matIn pxIdx blkIdx cb i js ?t'"
    by (simp add: B pad px set_slice3_padded[OF Cons.prems(1) shB])
  show ?case by (rule Cons.IH[of ?t']) (use step Cons.prems in simp_all)
qed

lemma fill_grid_cases:
  assumes pad: "padding self = (int pt, int pb, int pl, int pr)"
    and px: "shape pxIdx = [bh, bw]" and bl: "shape blkIdx = [gh, gw]"
    and pos: "0 < pt + bh + pb"
  shows "fill_grid self matIn pxIdx blkIdx cb (int (pt + bh + pb)) (int (pl + bw + pr)) rs ti
           = Inl IndexError \<or>
         (\<exists>t'. fill_grid self matIn pxIdx blkIdx cb (int (pt + bh + pb)) (int (pl + bw + pr)) rs ti
                 = Inr t' \<and>
               (\<forall>i\<in>set rs. \<forall>j<gw. \<exists>B. unit_block self matIn pxIdx blkIdx cb i j = Inr B))"
proof -
  define bhp where "bhp = pt + bh + pb"
  define bwp where "bwp = pl + bw + pr"
  define z where "z = tab3 bhp gw bwp (\<lambda>y p x. 0::real)"
  have nc: "ncols blkIdx = gw" using bl by (simp add: ncols_def)
  have zeros: "torch_zeros3 (int bhp) (int gw) (int bwp) = Inr z"
    unfolding torch_zeros3_def z_def by (simp only: nat_int of_nat_less_0_iff if_False simp_thms)
  have shz: "shape z = [pt + bh + pb, gw, pl + bw + pr]" by (simp add: z_def bhp_def bwp_def)
  have posb: "0 < bhp" using pos unfolding bhp_def .
  have "fill_grid self matIn pxIdx blkIdx cb (int bhp) (int bwp) rs ti = Inl IndexError \<or>
         (\<exists>t'. fill_grid self matIn pxIdx blkIdx cb (int bhp) (int bwp) rs ti = Inr t' \<and>
               (\<forall>i\<in>set rs. \<forall>j<gw. \<exists>B. unit_block self matIn pxIdx blkIdx cb i j = Inr B))"
  proof (induction rs arbitrary: ti)
    case Nil
    then show ?case by simp
  next
    case (Cons i rs)
    consider "fill_row self matIn pxIdx blkIdx cb i [0..<gw] z = Inl IndexError"
      | t' where "fill_row self matIn pxIdx blkIdx cb i [0..<gw] z = Inr t'"
          "\<forall>j\<in>set [0..<gw]. \<exists>B. unit_block self matIn pxIdx blkIdx cb i j = Inr B"
      using fill_row_cases[OF pad px shz] by blast
    then show ?case
    proof cases
      case 1
      have "fill_grid self matIn pxIdx blkIdx cb (int bhp) (int bwp) (i # rs) ti = Inl IndexError"
        unfolding fill_grid.simps nc zeros ebind_Inr 1 ebind_Inl ..
      then show ?thesis by simp
    next
      case 2
      have "shape t' = [bhp, gw, bwp]"
        using fill_row_shape[OF pad px shz 2(1)] by (simp add: bhp_def bwp_def)
      then have view: "view_rows t' bhp = Inr \<lparr>shape = [bhp, gw * bwp], data = data t'\<rparr>"
        using posb by (intro view_rows_3d)
      have step: "fill_grid self matIn pxIdx blkIdx cb (int bhp) (int bwp) (i # rs) ti
          = fill_grid self matIn pxIdx blkIdx cb (int bhp) (int bwp) rs
              (set_select1 ti i (transpose2 \<lparr>shape = [bhp, gw * bwp], data = data t'\<rparr>))"
        unfolding fill_grid.simps nc zeros ebind_Inr 2(1) nat_int view ..
      show ?thesis unfolding step
        using Cons.IH[of "set_select1 ti i
                (transpose2 \<lparr>shape = [bhp, gw * bwp], data = data t'\<rparr>)"] 2(2)
        by auto
    qed
  qed
  then show ?thesis unfolding bhp_def bwp_def .
qed

lemma fill_grid_no_height:
  "\<exists>e. fill_grid self matIn pxIdx blkIdx cb 0 bwp (i # rs) ti = Inl e"
  by (auto simp: ebind_def view_rows_def split: sum.splits)

subsection \<open>What a returned array holds\<close>

lemma KaleidoTransform_Inr:
  assumes pad: "padding self = (int pt, int pb, int pl, int pr)"
    and px: "shape pxIdx = [bh, bw]" and bl: "shape blkIdx = [gh, gw]"
    and out: "KaleidoTransform self matIn pxIdx blkIdx cb = Inr out"
  shows "0 < gw \<and> 0 < pl + bw + pr \<and> (gh = 0 \<or> 0 < pt + bh + pb) \<and>
         (\<forall>i<gh. \<forall>j<gw. \<exists>B. unit_block self matIn pxIdx blkIdx cb i j = Inr B \<and> shape B = [bh, bw])"
proof -
  define bhp where "bhp = pt + bh + pb"
  define bwp where "bwp = pl + bw + pr"
  define z where "z = tab3 (gw * bwp) gh bhp (\<lambda>y p x. 0::real)"
  have ih: "int bh + (int pt + int pb) = int bhp" "int bw + (int pl + int pr) = int bwp"
    by (simp_all add: bhp_def bwp_def)
  have iw: "int gw * int bwp = int (gw * bwp)" by simp
  have zeros: "torch_zeros3 (int (gw * bwp)) (int gh) (int bhp) = Inr z"
    unfolding torch_zeros3_def z_def by (simp only: nat_int of_nat_less_0_iff if_False simp_thms)
  have run: "KaleidoTransform self matIn pxIdx blkIdx cb =
        ebind (fill_grid self matIn pxIdx blkIdx cb (int bhp) (int bwp) [0..<gh] z) (\<lambda>transImage.
        ebind (view_rows transImage (gw * bwp)) (\<lambda>transImage. Inr (transpose2 transImage)))"
    unfolding KaleidoTransform_def KaleidoTransform_run_def pad px bl
    by (simp only: prod.case unpack2_def list.case sum.case Let_def ih iw zeros snd_conv nat_int)
  from out obtain G where G: "fill_grid self matIn pxIdx blkIdx cb (int bhp) (int bwp) [0..<gh] z = Inr G"
    unfolding run by (cases "fill_grid self matIn pxIdx blkIdx cb (int bhp) (int bwp) [0..<gh] z") auto
  with out have "\<exists>V. view_rows G (gw * bwp) = Inr V"
    unfolding run by (cases "view_rows G (gw * bwp)") auto
  then have w: "0 < gw * bwp" by (auto simp: view_rows_def split: if_splits)
  have h: "gh = 0 \<or> 0 < bhp"
  proof (rule ccontr)
    assume "\<not> (gh = 0 \<or> 0 < bhp)"
    then have "bhp = 0" "[0..<gh] = 0 # [1..<gh]" by (simp_all add: upt_conv_Cons)
    then show False using G fill_grid_no_height[of self matIn pxIdx blkIdx cb "int bwp" 0 "[1..<gh]" z]
      by auto
  qed
  have "\<exists>B. unit_block self matIn pxIdx blkIdx cb i j = Inr B \<and> shape B = [bh, bw]"
    if "i < gh" "j < gw" for i j
  proof -
    have "0 < pt + bh + pb" using h that by (auto simp: bhp_def)
    from fill_grid_cases[OF pad px bl this, of matIn cb "[0..<gh]" z] G that
    have "\<exists>B. unit_block self matIn pxIdx blkIdx cb i j = Inr B"
      by (auto simp: bhp_def bwp_def)
    then show ?thesis using unit_block_cases[OF px, of self matIn blkIdx cb i j] by auto
  qed
  then show ?thesis using w h by (simp add: bhp_def bwp_def)
qed

lemma projr_blocks:
  fixes gh gw :: nat
  assumes "\<And>i j. i < gh \<Longrightarrow> j < gw \<Longrightarrow> \<exists>B. f i j = Inr B \<and> P B"
  shows "\<forall>i<gh. \<forall>j<gw. f i j = Inr (projr (f i j)) \<and> P (projr (f i j))"
proof (intro allI impI)
  fix i j assume "i < gh" "j < gw"
  then obtain B where "f i j = Inr B" "P B" using assms by blast
  then show "f i j = Inr (projr (f i j)) \<and> P (projr (f i j))" by simp
qed

lemma KaleidoTransform_cells:
  assumes pad: "padding self = (int pt, int pb, int pl, int pr)"
    and px: "shape pxIdx = [bh, bw]" and bl: "shape blkIdx = [gh, gw]"
    and out: "KaleidoTransform self matIn pxIdx blkIdx cb = Inr out"
  shows "wf out \<and> shape out = [gh * (pt + bh + pb), gw * (pl + bw + pr)] \<and>
         (\<forall>i<gh. \<forall>j<gw. \<exists>B. unit_block self matIn pxIdx blkIdx cb i j = Inr B \<and>
            shape B = [bh, bw] \<and>
            (\<forall>y<pt + bh + pb. \<forall>x<pl + bw + pr.
               get2 out (i * (pt + bh + pb) + y) (j * (pl + bw + pr) + x) =
               (if in_rect (pt, bh) (pl, bw) y x then get2 B (y - pt) (x - pl) else 0)))"
proof -
  define B where "B = (\<lambda>i j. projr (unit_block self matIn pxIdx blkIdx cb i j))"
  note ok = KaleidoTransform_Inr[OF pad px bl out]
  have blk: "\<forall>i<gh. \<forall>j<gw. unit_block self matIn pxIdx blkIdx cb i j = Inr (B i j)
               \<and> shape (B i j) = [bh, bw]"
    unfolding B_def by (rule projr_blocks) (use ok in blast)
  from KaleidoTransform_run_result[OF pad px bl _ _ _ blk] ok
  obtain out' where out': "KaleidoTransform_run self matIn pxIdx blkIdx cb =
        (Some [gw * (pl + bw + pr), gh, pt + bh + pb], Inr out')"
      "wf out'" "shape out' = [gh * (pt + bh + pb), gw * (pl + bw + pr)]"
      "\<forall>i<gh. \<forall>j<gw. \<forall>y<pt + bh + pb. \<forall>x<pl + bw + pr.
          get2 out' (i * (pt + bh + pb) + y) (j * (pl + bw + pr) + x) =
          (if in_rect (pt, bh) (pl, bw) y x then get2 (B i j) (y - pt) (x - pl) else 0)"
    by blast
  have "out' = out" using out out'(1) by (simp add: KaleidoTransform_def)
  then show ?thesis using out'(2-4) blk by blast
qed

lemma KaleidoTransform_block:
  assumes pad: "padding self = (int pt, int pb, int pl, int pr)"
    and px: "wf pxIdx" "shape pxIdx = [bh, bw]" and bl: "shape blkIdx = [gh, gw]"
    and out: "KaleidoTransform self matIn pxIdx blkIdx cb = Inr out"
    and ij: "i < gh" "j < gw"
  shows "unit_block self matIn pxIdx blkIdx cb i j =
         Inr (sub2 out (i * (pt + bh + pb) + pt) (j * (pl + bw + pr) + pl) bh bw)"
proof -
  from KaleidoTransform_cells[OF pad px(2) bl out] ij
  obtain B where B: "unit_block self matIn pxIdx blkIdx cb i j = Inr B" "shape B = [bh, bw]"
    "\<forall>y<pt + bh + pb. \<forall>x<pl + bw + pr.
       get2 out (i * (pt + bh + pb) + y) (j * (pl + bw + pr) + x) =
       (if in_rect (pt, bh) (pl, bw) y x then get2 B (y - pt) (x - pl) else 0)"
    by blast
  have "sub2 out (i * (pt + bh + pb) + pt) (j * (pl + bw + pr) + pl) bh bw = B"
  proof (rule tensor_eqI2[where h = bh and w = bw])
    show "wf B" by (rule unit_block_wf[OF px(1) B(1)])
    fix y x assume yx: "y < bh" "x < bw"
    then have "get2 out (i * (pt + bh + pb) + (pt + y)) (j * (pl + bw + pr) + (pl + x)) = get2 B y x"
      using B(3)[rule_format, of "pt + y" "pl + x"] by (simp add: in_rect_def)
    then show "get2 (sub2 out (i * (pt + bh + pb) + pt) (j * (pl + bw + pr) + pl) bh bw) y x
               = get2 B y x"
      using yx by (simp add: add.assoc)
  qed (use B in auto)
  then show ?thesis using B(1) by simp
qed

lemma get2_in_data:
  "wf t \<Longrightarrow> shape t = [h, w] \<Longrightarrow> y < h \<Longrightarrow> x < w \<Longrightarrow> get2 t y x \<in> set (data t)"
  by (simp add: get2_def wf_def numel_def lin2_less)

lemma unit_block_in_range:
  assumes m: "wf matIn" "shape matIn = [M, N]"
    and px: "shape pxIdx = [bh, bw]" and bl: "wf blkIdx" "shape blkIdx = [gh, gw]"
    and rng: "\<forall>k\<in>set (data pxIdx). 0 \<le> k \<and> k < int N"
      "\<forall>r\<in>set (data blkIdx). 0 \<le> r \<and> r < int M"
    and ij: "i < gh" "j < gw"
  shows "\<exists>B. unit_block self matIn pxIdx blkIdx cb i j = Inr B \<and> shape B = [bh, bw]"
proof -
  have "get2 blkIdx i j \<in> set (data blkIdx)" by (rule get2_in_data[OF bl ij])
  then have r: "0 \<le> get2 blkIdx i j" "get2 blkIdx i j < int M" using rng(2) by auto
  show ?thesis
    using gather_block_in_range[OF m r rng(1)] px
    by (simp add: unit_block_def shape_reflect_block)
qed

lemma KaleidoTransform_total:
  assumes m: "wf matIn" "shape matIn = [M, N]"
    and px: "shape pxIdx = [bh, bw]" and bl: "wf blkIdx" "shape blkIdx = [gh, gw]"
    and rng: "\<forall>k\<in>set (data pxIdx). 0 \<le> k \<and> k < int N"
      "\<forall>r\<in>set (data blkIdx). 0 \<le> r \<and> r < int M"
    and pad: "padding self = (int pt, int pb, int pl, int pr)"
    and pos: "0 < gw" "0 < pl + bw + pr" "gh = 0 \<or> 0 < pt + bh + pb"
  shows "\<exists>out. KaleidoTransform_run self matIn pxIdx blkIdx cb =
                 (Some [gw * (pl + bw + pr), gh, pt + bh + pb], Inr out)"
proof -
  define B where "B = (\<lambda>i j. projr (unit_block self matIn pxIdx blkIdx cb i j))"
  have blk: "\<forall>i<gh. \<forall>j<gw. unit_block self matIn pxIdx blkIdx cb i j = Inr (B i j)
               \<and> shape (B i j) = [bh, bw]"
    unfolding B_def by (rule projr_blocks) (rule unit_block_in_range[OF m px bl rng])
  from KaleidoTransform_run_result[OF pad px bl(2) pos blk] show ?thesis by blast
qed

section \<open>Claims about KaleidoTransform\<close>

lemma unit_block_no_center:
  "unit_block self matIn pxIdx blkIdx [] i j = gather_block matIn pxIdx (get2 blkIdx i j)"
  by (simp add: unit_block_def reflect_block_def ebind_def split: sum.splits)

lemma reflect_block_other_length:
  "length cb \<noteq> 2 \<Longrightarrow> reflect_block self cb i j blk = blk"
  by (simp add: reflect_block_def)

lemma unit_block_other_length:
  "length cb \<noteq> 2 \<Longrightarrow>
   unit_block self matIn pxIdx blkIdx cb i j = unit_block self matIn pxIdx blkIdx [] i j"
  by (simp add: unit_block_def reflect_block_other_length)

lemma fill_row_other_length:
  assumes "length cb \<noteq> 2"
  shows "fill_row self matIn pxIdx blkIdx cb i js t = fill_row self matIn pxIdx blkIdx [] i js t"
proof (induction js arbitrary: t)
  case Nil
  show ?case by simp
next
  case (Cons j js)
  have "fill_row self matIn pxIdx blkIdx cb i js = fill_row self matIn pxIdx blkIdx [] i js"
    by (rule ext) (rule Cons.IH)
  then show ?case by (simp add: unit_block_other_length[OF assms])
qed

lemma fill_grid_other_length:
  assumes "length cb \<noteq> 2"
  shows "fill_grid self matIn pxIdx blkIdx cb bhp bwp rs ti
         = fill_grid self matIn pxIdx blkIdx [] bhp bwp rs ti"
proof (induction rs arbitrary: ti)
  case Nil
  show ?case by simp
next
  case (Cons i rs)
  have "fill_grid self matIn pxIdx blkIdx cb bhp bwp rs
        = fill_grid self matIn pxIdx blkIdx [] bhp bwp rs"
    by (rule ext) (rule Cons.IH)
  moreover have "fill_row self matIn pxIdx blkIdx cb i = fill_row self matIn pxIdx blkIdx [] i"
    by (intro ext) (rule fill_row_other_length[OF assms])
  ultimately show ?case by simp
qed



text \<open>
  C6 (as amended). For every matIn of shape \<open>(M, N)\<close>, pxIdx of shape \<open>(bh, bw)\<close> and blkIdx
  of shape \<open>(gh, gw)\<close> with all indices in range, non-negative padding, at least one block
  column, a cell width that is not zero and (unless there is no block row) a cell height
  that is not zero, KaleidoTransform returns an array of shape
  \<open>(gh * (bh + pad_v), gw * (bw + pad_h))\<close>; the block of grid position \<open>(i, j)\<close> stands at
  offset \<open>(pad_top, pad_left)\<close> of the cell that starts at row \<open>i * (bh + pad_v)\<close> and column
  \<open>j * (bw + pad_h)\<close>, and the rest of the cell is zero.
\<close>

theorem KaleidoTransform_layout:
  assumes "wf matIn" and "shape matIn = [M, N]"
    and "wf pxIdx" and "shape pxIdx = [bh, bw]"
    and "wf blkIdx" and "shape blkIdx = [gh, gw]"
    and "\<forall>k\<in>set (data pxIdx). 0 \<le> k \<and> k < int N"
    and "\<forall>r\<in>set (data blkIdx). 0 \<le> r \<and> r < int M"
    and "padding self = (int pt, int pb, int pl, int pr)"
    and "0 < gw" and "0 < pl + bw + pr" and "gh = 0 \<or> 0 < pt + bh + pb"
  shows "\<exists>out. KaleidoTransform self matIn pxIdx blkIdx centerBlk = Inr out \<and>
           shape out = [gh * (pt + bh + pb), gw * (pl + bw + pr)] \<and>
           (\<forall>i<gh. \<forall>j<gw.
              unit_block self matIn pxIdx blkIdx centerBlk i j =
                Inr (sub2 out (i * (pt + bh + pb) + pt) (j * (pl + bw + pr) + pl) bh bw) \<and>
              (\<forall>y<pt + bh + pb. \<forall>x<pl + bw + pr. \<not> in_rect (pt, bh) (pl, bw) y x \<longrightarrow>
                 get2 out (i * (pt + bh + pb) + y) (j * (pl + bw + pr) + x) = 0))"
proof -
  from KaleidoTransform_total[OF assms(1,2,4,5,6,7,8,9,10,11,12), of centerBlk]
  obtain out where out: "KaleidoTransform self matIn pxIdx blkIdx centerBlk = Inr out"
    by (auto simp: KaleidoTransform_def)
  note cells = KaleidoTransform_cells[OF assms(9,4,6) out]
  have "unit_block self matIn pxIdx blkIdx centerBlk i j =
          Inr (sub2 out (i * (pt + bh + pb) + pt) (j * (pl + bw + pr) + pl) bh bw) \<and>
        (\<forall>y<pt + bh + pb. \<forall>x<pl + bw + pr. \<not> in_rect (pt, bh) (pl, bw) y x \<longrightarrow>
           get2 out (i * (pt + bh + pb) + y) (j * (pl + bw + pr) + x) = 0)"
    if ij: "i < gh" "j < gw" for i j
    using KaleidoTransform_block[OF assms(9,3,4,6) out ij] cells ij by fastforce
  then show ?thesis using out cells by blast
qed

theorem KaleidoTransform_layout_witness:
  "\<exists>out. KaleidoTransform (Kaleidoscope_init (0, 0, 0, 0) (1, 0, 0, 1) (1 / 2))
       \<lparr>shape = [3, 4], data = [1, 2, 3, 4, 10, 20, 30, 40, 100, 200, 300, 400]\<rparr>
       \<lparr>shape = [2, 2], data = [0, 1, 2, 3]\<rparr>
       \<lparr>shape = [2, 3], data = [0, 1, 2, 2, 1, 0]\<rparr> [0, 1] = Inr out \<and>
     shape out = [6, 9]"
proof -
  let ?K = "Kaleidoscope_init (0, 0, 0, 0) (1, 0, 0, 1) (1 / 2)"
  let ?m = "\<lparr>shape = [3, 4], data = [1, 2, 3, 4, 10, 20, 30, 40, 100, 200, 300, 400::real]\<rparr>"
  let ?p = "\<lparr>shape = [2, 2], data = [0, 1, 2, 3::int]\<rparr>"
  let ?b = "\<lparr>shape = [2, 3], data = [0, 1, 2, 2, 1, 0::int]\<rparr>"
  have pre: "wf ?m" "shape ?m = [3, 4]" "wf ?p" "shape ?p = [2, 2]" "wf ?b" "shape ?b = [2, 3]"
    "\<forall>k\<in>set (data ?p). 0 \<le> k \<and> k < int 4" "\<forall>r\<in>set (data ?b). 0 \<le> r \<and> r < int 3"
    "padding ?K = (int 1, int 0, int 0, int 1)"
    "0 < (3::nat)" "0 < (0::nat) + 2 + 1" "(2::nat) = 0 \<or> 0 < (1::nat) + 2 + 0"
    by (simp_all add: Kaleidoscope_init_def wf_def numel_def)
  from KaleidoTransform_layout[OF pre, of "[0, 1]"] show ?thesis by auto
qed

text \<open>
  C6 as stated fails for a block grid without columns: the final \<^verbatim>\<open>view\<close> raises.
\<close>

theorem KaleidoTransform_layout_counterexample:
  "KaleidoTransform (Kaleidoscope_init (0, 0, 0, 0) (0, 0, 0, 0) 1)
     \<lparr>shape = [1, 1], data = [7]\<rparr> \<lparr>shape = [1, 1], data = [0]\<rparr>
     \<lparr>shape = [2, 0], data = []\<rparr> [] = Inl RuntimeError"
  by code_simp

text \<open>
  C7. With an empty \<open>centerBlk\<close>, in every array KaleidoTransform returns each block is
  the block gathered from its row of matIn, neither flipped nor attenuated; when blkIdx
  holds one row index everywhere, every cell holds the block gathered from that row and
  all cells are equal. The call returns whenever the index maps are in range and the
  grid and its cells are not empty.
\<close>

theorem KaleidoTransform_no_center:
  assumes "wf pxIdx" and "shape pxIdx = [bh, bw]" and "shape blkIdx = [gh, gw]"
    and "padding self = (int pt, int pb, int pl, int pr)"
  shows "(wf matIn \<and> shape matIn = [M, N] \<and> wf blkIdx \<and>
          (\<forall>k\<in>set (data pxIdx). 0 \<le> k \<and> k < int N) \<and>
          (\<forall>r\<in>set (data blkIdx). 0 \<le> r \<and> r < int M) \<and>
          0 < gw \<and> 0 < pl + bw + pr \<and> (gh = 0 \<or> 0 < pt + bh + pb)
          \<longrightarrow> (\<exists>out. KaleidoTransform self matIn pxIdx blkIdx [] = Inr out)) \<and>
         (\<forall>out. KaleidoTransform self matIn pxIdx blkIdx [] = Inr out \<longrightarrow>
            (\<forall>i<gh. \<forall>j<gw.
               gather_block matIn pxIdx (get2 blkIdx i j) =
                 Inr (sub2 out (i * (pt + bh + pb) + pt) (j * (pl + bw + pr) + pl) bh bw)) \<and>
            (\<forall>r. (\<forall>i<gh. \<forall>j<gw. get2 blkIdx i j = r) \<longrightarrow>
               (\<forall>i<gh. \<forall>j<gw.
                  gather_block matIn pxIdx r =
                    Inr (sub2 out (i * (pt + bh + pb) + pt) (j * (pl + bw + pr) + pl) bh bw) \<and>
                  sub2 out (i * (pt + bh + pb)) (j * (pl + bw + pr)) (pt + bh + pb) (pl + bw + pr)
                  = sub2 out 0 0 (pt + bh + pb) (pl + bw + pr))))"
proof (intro conjI allI impI)
  assume a: "wf matIn \<and> shape matIn = [M, N] \<and> wf blkIdx \<and>
          (\<forall>k\<in>set (data pxIdx). 0 \<le> k \<and> k < int N) \<and>
          (\<forall>r\<in>set (data blkIdx). 0 \<le> r \<and> r < int M) \<and>
          0 < gw \<and> 0 < pl + bw + pr \<and> (gh = 0 \<or> 0 < pt + bh + pb)"
  with KaleidoTransform_total[OF _ _ assms(2) _ assms(3) _ _ assms(4), of matIn M N "[]"]
  show "\<exists>out. KaleidoTransform self matIn pxIdx blkIdx [] = Inr out"
    by (auto simp: KaleidoTransform_def)
next
  fix out i j
  assume out: "KaleidoTransform self matIn pxIdx blkIdx [] = Inr out" and ij: "i < gh" "j < gw"
  from KaleidoTransform_block[OF assms(4,1,2,3) out ij]
  show "gather_block matIn pxIdx (get2 blkIdx i j) =
          Inr (sub2 out (i * (pt + bh + pb) + pt) (j * (pl + bw + pr) + pl) bh bw)"
    by (simp add: unit_block_no_center)
next
  fix out r i j
  assume out: "KaleidoTransform self matIn pxIdx blkIdx [] = Inr out"
    and r: "\<forall>i<gh. \<forall>j<gw. get2 blkIdx i j = r" and ij: "i < gh" "j < gw"
  from KaleidoTransform_block[OF assms(4,1,2,3) out ij] r ij
  show "gather_block matIn pxIdx r =
          Inr (sub2 out (i * (pt + bh + pb) + pt) (j * (pl + bw + pr) + pl) bh bw)"
    by (simp add: unit_block_no_center)
next
  fix out r i j
  assume out: "KaleidoTransform self matIn pxIdx blkIdx [] = Inr out"
    and r: "\<forall>i<gh. \<forall>j<gw. get2 blkIdx i j = r" and ij: "i < gh" "j < gw"
  note cells = KaleidoTransform_cells[OF assms(4,2,3) out, THEN conjunct2, THEN conjunct2, rule_format]
  have z: "0 < gh" "0 < gw" using ij by simp_all
  from cells[OF ij] obtain B where B:
    "unit_block self matIn pxIdx blkIdx [] i j = Inr B"
    "\<forall>y<pt + bh + pb. \<forall>x<pl + bw + pr.
       get2 out (i * (pt + bh + pb) + y) (j * (pl + bw + pr) + x) =
       (if in_rect (pt, bh) (pl, bw) y x then get2 B (y - pt) (x - pl) else 0)"
    by blast
  from cells[OF z] obtain B0 where B0:
    "unit_block self matIn pxIdx blkIdx [] 0 0 = Inr B0"
    "\<forall>y<pt + bh + pb. \<forall>x<pl + bw + pr.
       get2 out (0 * (pt + bh + pb) + y) (0 * (pl + bw + pr) + x) =
       (if in_rect (pt, bh) (pl, bw) y x then get2 B0 (y - pt) (x - pl) else 0)"
    by blast
  have "B = B0" using B(1) B0(1) r ij z by (simp add: unit_block_no_center)
  then have "get2 out (i * (pt + bh + pb) + y) (j * (pl + bw + pr) + x) = get2 out y x"
    if "y < pt + bh + pb" "x < pl + bw + pr" for y x
    using B(2) B0(2) that by simp
  then show "sub2 out (i * (pt + bh + pb)) (j * (pl + bw + pr)) (pt + bh + pb) (pl + bw + pr)
             = sub2 out 0 0 (pt + bh + pb) (pl + bw + pr)"
    unfolding sub2_def by (intro tab2_cong) simp
qed

theorem KaleidoTransform_no_center_witness:
  "\<exists>out. KaleidoTransform (Kaleidoscope_init (0, 0, 0, 0) (1, 0, 0, 1) (1 / 2))
       \<lparr>shape = [3, 4], data = [1, 2, 3, 4, 10, 20, 30, 40, 100, 200, 300, 400]\<rparr>
       \<lparr>shape = [2, 2], data = [0, 1, 2, 3]\<rparr>
       \<lparr>shape = [1, 2], data = [1, 1]\<rparr> [] = Inr out \<and>
     gather_block \<lparr>shape = [3, 4], data = [1, 2, 3, 4, 10, 20, 30, 40, 100, 200, 300, 400]\<rparr>
       \<lparr>shape = [2, 2], data = [0, 1, 2, 3]\<rparr> 1 = Inr (sub2 out 1 3 2 2) \<and>
     sub2 out 0 3 3 3 = sub2 out 0 0 3 3"
proof -
  let ?K = "Kaleidoscope_init (0, 0, 0, 0) (1, 0, 0, 1) (1 / 2)"
  let ?m = "\<lparr>shape = [3, 4], data = [1, 2, 3, 4, 10, 20, 30, 40, 100, 200, 300, 400::real]\<rparr>"
  let ?p = "\<lparr>shape = [2, 2], data = [0, 1, 2, 3::int]\<rparr>"
  let ?b = "\<lparr>shape = [1, 2], data = [1, 1::int]\<rparr>"
  have pre: "wf ?p" "shape ?p = [2, 2]" "shape ?b = [1, 2]"
    "padding ?K = (int 1, int 0, int 0, int 1)"
    by (simp_all add: Kaleidoscope_init_def wf_def numel_def)
  note th = KaleidoTransform_no_center[OF pre, of ?m 3 4]
  have "wf ?m \<and> shape ?m = [3, 4] \<and> wf ?b \<and>
          (\<forall>k\<in>set (data ?p). 0 \<le> k \<and> k < int 4) \<and>
          (\<forall>r\<in>set (data ?b). 0 \<le> r \<and> r < int 3) \<and>
          0 < (2::nat) \<and> 0 < (0::nat) + 2 + 1 \<and> ((1::nat) = 0 \<or> 0 < (1::nat) + 2 + 0)"
    by (simp add: wf_def numel_def)
  with th obtain out where out: "KaleidoTransform ?K ?m ?p ?b [] = Inr out" by blast
  have one: "\<forall>i<1. \<forall>j<2. get2 ?b i j = 1"
    by (auto simp: get2_def less_Suc_eq numeral_2_eq_2)
  have z: "(0::nat) < 1" "(1::nat) < 2" by simp_all
  from th out one z have
    "gather_block ?m ?p 1 = Inr (sub2 out (0 * (1 + 2 + 0) + 1) (1 * (0 + 2 + 1) + 0) 2 2) \<and>
     sub2 out (0 * (1 + 2 + 0)) (1 * (0 + 2 + 1)) (1 + 2 + 0) (0 + 2 + 1)
       = sub2 out 0 0 (1 + 2 + 0) (0 + 2 + 1)"
    by blast
  then have
    "gather_block ?m ?p 1 = Inr (sub2 out 1 3 2 2) \<and> sub2 out 0 3 3 3 = sub2 out 0 0 3 3"
    by (simp add: eval_nat_numeral)
  then show ?thesis using out by blast
qed

text \<open>
  C10. A \<open>centerBlk\<close> that is not empty and has not exactly 2 elements changes nothing: the
  call does what it does for the empty \<open>centerBlk\<close>, the same result or the same failure.
\<close>

theorem KaleidoTransform_other_length:
  assumes "centerBlk \<noteq> []" and "length centerBlk \<noteq> 2"
  shows "KaleidoTransform self matIn pxIdx blkIdx centerBlk
         = KaleidoTransform self matIn pxIdx blkIdx []"
proof -
  have eq: "fill_grid self matIn pxIdx blkIdx centerBlk = fill_grid self matIn pxIdx blkIdx []"
    by (intro ext) (rule fill_grid_other_length[OF assms(2)])
  show ?thesis unfolding KaleidoTransform_def KaleidoTransform_run_def eq ..
qed

theorem KaleidoTransform_other_length_witness:
  "KaleidoTransform (Kaleidoscope_init (0, 0, 0, 0) (1, 0, 0, 1) (1 / 2))
       \<lparr>shape = [3, 4], data = [1, 2, 3, 4, 10, 20, 30, 40, 100, 200, 300, 400]\<rparr>
       \<lparr>shape = [2, 2], data = [0, 1, 2, 3]\<rparr>
       \<lparr>shape = [1, 2], data = [1, 2]\<rparr> [0, 1, 0]
   = KaleidoTransform (Kaleidoscope_init (0, 0, 0, 0) (1, 0, 0, 1) (1 / 2))
       \<lparr>shape = [3, 4], data = [1, 2, 3, 4, 10, 20, 30, 40, 100, 200, 300, 400]\<rparr>
       \<lparr>shape = [2, 2], data = [0, 1, 2, 3]\<rparr>
       \<lparr>shape = [1, 2], data = [1, 2]\<rparr> []"
  by (rule KaleidoTransform_other_length) simp_all

lemma KaleidoTransform_run_unfold:
  assumes pad: "padding self = (int pt, int pb, int pl, int pr)"
    and px: "shape pxIdx = [bh, bw]" and bl: "shape blkIdx = [gh, gw]"
  shows "KaleidoTransform_run self matIn pxIdx blkIdx cb =
         (Some [gw * (pl + bw + pr), gh, pt + bh + pb],
          ebind (fill_grid self matIn pxIdx blkIdx cb (int (pt + bh + pb)) (int (pl + bw + pr))
                   [0..<gh] (tab3 (gw * (pl + bw + pr)) gh (pt + bh + pb) (\<lambda>y p x. 0)))
            (\<lambda>transImage.
          ebind (view_rows transImage (gw * (pl + bw + pr)))
            (\<lambda>transImage. Inr (transpose2 transImage))))"
proof -
  define bhp where "bhp = pt + bh + pb"
  define bwp where "bwp = pl + bw + pr"
  define z where "z = tab3 (gw * bwp) gh bhp (\<lambda>y p x. 0::real)"
  have ih: "int bh + (int pt + int pb) = int bhp" "int bw + (int pl + int pr) = int bwp"
    by (simp_all add: bhp_def bwp_def)
  have iw: "int gw * int bwp = int (gw * bwp)" by simp
  have zeros: "torch_zeros3 (int (gw * bwp)) (int gh) (int bhp) = Inr z"
    unfolding torch_zeros3_def z_def by (simp only: nat_int of_nat_less_0_iff if_False simp_thms)
  have shz: "shape z = [gw * bwp, gh, bhp]" by (simp add: z_def)
  have "KaleidoTransform_run self matIn pxIdx blkIdx cb =
         (Some [gw * bwp, gh, bhp],
          ebind (fill_grid self matIn pxIdx blkIdx cb (int bhp) (int bwp) [0..<gh] z)
            (\<lambda>transImage.
          ebind (view_rows transImage (gw * bwp))
            (\<lambda>transImage. Inr (transpose2 transImage))))"
    unfolding KaleidoTransform_run_def pad px bl
    by (simp only: prod.case unpack2_def list.case sum.case Let_def ih iw zeros nat_int shz)
  then show ?thesis unfolding z_def bhp_def bwp_def .
qed

lemma unit_block_bad_row:
  assumes "shape matIn = [M, N]" and "int M \<le> get2 blkIdx i j"
  shows "unit_block self matIn pxIdx blkIdx cb i j = Inl IndexError"
  using assms by (simp add: unit_block_def gather_block_def select_row_def wrap_index_def)




end
